theory Spec2Isabelle
  imports Complex_Main
begin

section \<open>The JavaScript \<open>Date\<close> operations the code relies on\<close>

text \<open>
  A \<open>Date\<close> is its time value: an integer number of milliseconds, read on the local
  civil time line (the local offset from UTC is taken as constant, so comparing two time
  values and comparing two local times agree). Time values are unbounded integers here;
  the invalid date and the limit of the representable range are outside the model. The
  definitions below follow the abstract operations of the language standard that
  \<open>new Date(year, monthIndex, day)\<close>, \<open>getFullYear\<close>, \<open>getMonth\<close>,
  \<open>getDate\<close>, \<open>getDay\<close> and \<open>setDate\<close> are specified with.
\<close>

type_synonym Date = int

definition msPerDay :: int where
  "msPerDay = 86400000"

definition Day :: "Date \<Rightarrow> int" where
  "Day t = t div msPerDay"

definition TimeWithinDay :: "Date \<Rightarrow> int" where
  "TimeWithinDay t = t mod msPerDay"

definition DaysInYear :: "int \<Rightarrow> int" where
  "DaysInYear y =
     (if y mod 4 \<noteq> 0 then 365
      else if y mod 100 \<noteq> 0 then 366
      else if y mod 400 \<noteq> 0 then 365
      else 366)"

definition DayFromYear :: "int \<Rightarrow> int" where
  "DayFromYear y =
     365 * (y - 1970) + (y - 1969) div 4 - (y - 1901) div 100 + (y - 1601) div 400"

lemma div_step:
  fixes a n :: int
  assumes "0 < n"
  shows "(a + 1) div n = a div n + (if (a + 1) mod n = 0 then 1 else 0)"
proof -
  have eq: "n * (a div n) + a mod n = a" by (rule mult_div_mod_eq)
  have lo: "0 \<le> a mod n" and hi: "a mod n < n" using assms by simp_all
  show ?thesis
  proof (cases "a mod n + 1 = n")
    case True
    have "n * (a div n + 1) = n * (a div n) + n"
      by (simp add: algebra_simps)
    then have "a + 1 = n * (a div n + 1) + 0"
      using eq True by linarith
    then have "(a + 1) div n = a div n + 1" "(a + 1) mod n = 0"
      using assms int_div_pos_eq [of "a + 1" n "a div n + 1" 0]
        int_mod_pos_eq [of "a + 1" n "a div n + 1" 0] by simp_all
    then show ?thesis by simp
  next
    case False
    then have lt: "a mod n + 1 < n" using hi by linarith
    have "a + 1 = n * (a div n) + (a mod n + 1)" using eq by linarith
    then have "(a + 1) div n = a div n" "(a + 1) mod n = a mod n + 1"
      using lt lo int_div_pos_eq [of "a + 1" n "a div n" "a mod n + 1"]
        int_mod_pos_eq [of "a + 1" n "a div n" "a mod n + 1"] by simp_all
    then show ?thesis using lo by simp
  qed
qed

lemma div_lo: "0 < n \<Longrightarrow> n * (a div n) \<le> a" for a n :: int
  using mult_div_mod_eq [of n a] pos_mod_sign [of n a] by linarith

lemma div_hi: "0 < n \<Longrightarrow> a < n * (a div n) + n" for a n :: int
  using mult_div_mod_eq [of n a] pos_mod_bound [of n a] by linarith

lemma mod_shift: "(y - n * k) mod n = y mod n" for y n k :: int
  by (metis mod_mult_self2 diff_conv_add_uminus mult_minus_right)

lemma DayFromYear_Suc: "DayFromYear (y + 1) = DayFromYear y + DaysInYear y"
proof -
  have s4: "(y - 1968) div 4 = (y - 1969) div 4 + (if y mod 4 = 0 then 1 else 0)"
    using div_step [of 4 "y - 1969"] mod_shift [of y 4 492] by simp
  have s100: "(y - 1900) div 100 = (y - 1901) div 100 + (if y mod 100 = 0 then 1 else 0)"
    using div_step [of 100 "y - 1901"] mod_shift [of y 100 19] by simp
  have s400: "(y - 1600) div 400 = (y - 1601) div 400 + (if y mod 400 = 0 then 1 else 0)"
    using div_step [of 400 "y - 1601"] mod_shift [of y 400 4] by simp
  have m1: "y mod 100 = 0 \<Longrightarrow> y mod 4 = 0"
    using mod_mod_cancel [of 4 100 y] by simp
  have m2: "y mod 400 = 0 \<Longrightarrow> y mod 100 = 0"
    using mod_mod_cancel [of 100 400 y] by simp
  have "y + 1 - 1969 = y - 1968" "y + 1 - 1901 = y - 1900" "y + 1 - 1601 = y - 1600"
    by simp_all
  then show ?thesis
    using m1 m2 by (simp add: DayFromYear_def DaysInYear_def s4 s100 s400)
qed

lemma DaysInYear_bounds: "365 \<le> DaysInYear y" "DaysInYear y \<le> 366"
  by (simp_all add: DaysInYear_def)

text \<open>
  \<open>YearFromTime(t)\<close> is the largest year \<open>y\<close> with \<open>DayFromYear(y) \<le> Day(t)\<close>. It is
  computed by a search upwards from a year that is not after the day: \<open>1970 + d div 366\<close>
  for a day on or after the epoch, \<open>1970 + d div 365\<close> for a day before it.
\<close>

function YearFromDay_search :: "int \<Rightarrow> int \<Rightarrow> int" where
  "YearFromDay_search d y =
     (if DayFromYear (y + 1) \<le> d then YearFromDay_search d (y + 1) else y)"
  by pat_completeness auto
termination
proof (relation "measure (\<lambda>(d, y). nat (d - DayFromYear y))")
  show "wf (measure (\<lambda>(d, y). nat (d - DayFromYear y)))" by simp
next
  fix d y :: int
  assume "DayFromYear (y + 1) \<le> d"
  moreover have "DayFromYear y < DayFromYear (y + 1)"
    using DaysInYear_bounds(1) [of y] by (simp add: DayFromYear_Suc)
  ultimately show "((d, y + 1), (d, y)) \<in> measure (\<lambda>(d, y). nat (d - DayFromYear y))"
    by simp
qed

declare YearFromDay_search.simps [simp del]

definition YearFromDay :: "int \<Rightarrow> int" where
  "YearFromDay d =
     YearFromDay_search d (1970 + (if d < 0 then d div 365 else d div 366))"

definition YearFromTime :: "Date \<Rightarrow> int" where
  "YearFromTime t = YearFromDay (Day t)"

definition InLeapYear_of :: "int \<Rightarrow> int" where
  "InLeapYear_of y = (if DaysInYear y = 366 then 1 else 0)"

definition InLeapYear :: "Date \<Rightarrow> int" where
  "InLeapYear t = InLeapYear_of (YearFromTime t)"

definition DayWithinYear :: "Date \<Rightarrow> int" where
  "DayWithinYear t = Day t - DayFromYear (YearFromTime t)"

text \<open>The day within the year on which month \<open>m\<close> (0 to 11) starts.\<close>

definition monthStart :: "int \<Rightarrow> int \<Rightarrow> int" where
  "monthStart m leap =
     (if m = 0 then 0
      else if m = 1 then 31
      else if m = 2 then 59 + leap
      else if m = 3 then 90 + leap
      else if m = 4 then 120 + leap
      else if m = 5 then 151 + leap
      else if m = 6 then 181 + leap
      else if m = 7 then 212 + leap
      else if m = 8 then 243 + leap
      else if m = 9 then 273 + leap
      else if m = 10 then 304 + leap
      else 334 + leap)"

definition MonthFromTime :: "Date \<Rightarrow> int" where
  "MonthFromTime t =
     (let d = DayWithinYear t; leap = InLeapYear t in
      if d < 31 then 0
      else if d < 59 + leap then 1
      else if d < 90 + leap then 2
      else if d < 120 + leap then 3
      else if d < 151 + leap then 4
      else if d < 181 + leap then 5
      else if d < 212 + leap then 6
      else if d < 243 + leap then 7
      else if d < 273 + leap then 8
      else if d < 304 + leap then 9
      else if d < 334 + leap then 10
      else 11)"

definition DateFromTime :: "Date \<Rightarrow> int" where
  "DateFromTime t = DayWithinYear t - monthStart (MonthFromTime t) (InLeapYear t) + 1"

definition WeekDay :: "Date \<Rightarrow> int" where
  "WeekDay t = (Day t + 4) mod 7"

definition MakeDay :: "int \<Rightarrow> int \<Rightarrow> int \<Rightarrow> int" where
  "MakeDay yr m dt =
     (let ym = yr + m div 12; mn = m mod 12 in
      DayFromYear ym + monthStart mn (InLeapYear_of ym) + dt - 1)"

definition MakeDate :: "int \<Rightarrow> int \<Rightarrow> Date" where
  "MakeDate day time = day * msPerDay + time"

text \<open>
  \<open>new Date(year, monthIndex, day)\<close>: local midnight of that day. A year from 0 to 99
  stands for the year 1900 + year. The result is not clipped to the representable range
  (8640000000000000 milliseconds either side of the epoch, reached in the year 275760),
  beyond which the constructor and \<open>setDate\<close> give the invalid date.
\<close>

definition newDate :: "int \<Rightarrow> int \<Rightarrow> int \<Rightarrow> Date" where
  "newDate y m dt =
     (let yr = (if 0 \<le> y \<and> y \<le> 99 then 1900 + y else y) in
      MakeDate (MakeDay yr m dt) 0)"

definition getFullYear :: "Date \<Rightarrow> int" where
  "getFullYear t = YearFromTime t"

definition getMonth :: "Date \<Rightarrow> int" where
  "getMonth t = MonthFromTime t"

definition getDate :: "Date \<Rightarrow> int" where
  "getDate t = DateFromTime t"

definition getDay :: "Date \<Rightarrow> int" where
  "getDay t = WeekDay t"

definition setDate :: "Date \<Rightarrow> int \<Rightarrow> Date" where
  "setDate t dt =
     MakeDate (MakeDay (YearFromTime t) (MonthFromTime t) dt) (TimeWithinDay t)"

section \<open>Period calculations: the temporal anchors\<close>

definition getNextMonday :: "Date \<Rightarrow> Date" where
  "getNextMonday date =
     (let d = date; day = getDay d in
      if day = 6 then setDate d (getDate d + 2)
      else if day = 0 then setDate d (getDate d + 1)
      else d)"

text \<open>
  Each anchor is an object with a label (a string of the language file) and a function
  \<open>getDate\<close> from a year to a date; the functions are modelled.
\<close>

definition NEW_APPLICATION_PERIOD_BEGINS_getDate :: "int \<Rightarrow> Date" where
  "NEW_APPLICATION_PERIOD_BEGINS_getDate year = newDate year 0 1"

definition ABATEMENT_APPLICATION_DEADLINE_getDate :: "int \<Rightarrow> Date" where
  "ABATEMENT_APPLICATION_DEADLINE_getDate year = getNextMonday (newDate year 1 1)"

definition EXEMPTIONS_IN_PROGRESS_getDate :: "int \<Rightarrow> Date" where
  "EXEMPTIONS_IN_PROGRESS_getDate year = newDate year 2 1"

definition EXEMPTION_APPLICATION_DEADLINE_getDate :: "int \<Rightarrow> Date" where
  "EXEMPTION_APPLICATION_DEADLINE_getDate year = getNextMonday (newDate year 3 1)"

definition NEW_FY_PRELIMINARY_TAX_PERIOD_BEGINS_getDate :: "int \<Rightarrow> Date" where
  "NEW_FY_PRELIMINARY_TAX_PERIOD_BEGINS_getDate year = newDate year 6 1"

definition ABATEMENT_GRACE_PERIOD_DEADLINE_getDate :: "int \<Rightarrow> Date" where
  "ABATEMENT_GRACE_PERIOD_DEADLINE_getDate year =
     (let abatementDeadline = ABATEMENT_APPLICATION_DEADLINE_getDate year;
          graceDate = abatementDeadline
      in setDate graceDate (getDate graceDate + 28))"

definition EXEMPTION_APPLICATION_DEADLINE_DATE_getDate :: "int \<Rightarrow> Date" where
  "EXEMPTION_APPLICATION_DEADLINE_DATE_getDate year = getNextMonday (newDate year 3 1)"

section \<open>Fiscal year and quarter\<close>

definition getFiscalYear :: "Date \<Rightarrow> int" where
  "getFiscalYear date =
     (let year = getFullYear date; month = getMonth date in
      if month \<ge> 6 then year + 1 else year)"

text \<open>
  The object \<open>{year, quarter}\<close> that \<open>getFiscalYearAndQuarter\<close> returns; its fields
  are named \<open>fiscal_year\<close> and \<open>fiscal_quarter\<close> here.
\<close>

record FiscalYearAndQuarter =
  fiscal_year :: int
  fiscal_quarter :: string

definition getFiscalYearAndQuarter :: "Date \<Rightarrow> FiscalYearAndQuarter" where
  "getFiscalYearAndQuarter date =
     (let year = getFullYear date; month = getMonth date in
      if month < 6 then \<lparr>fiscal_year = year, fiscal_quarter = ''3''\<rparr>
      else \<lparr>fiscal_year = year + 1, fiscal_quarter = ''1''\<rparr>)"

section \<open>Phases of the abatement and exemption cycles\<close>

text \<open>
  The message of a phase is a string of the language file with variables filled in. The
  language file is not part of the code; a message is modelled as the key that is looked
  up together with the variables passed, or as a string literal. A date formatted for
  display is kept as the date and the \<open>withTime\<close> option.
\<close>

datatype template_value =
  VNumber int
  | VString string
  | VFormattedDate Date bool
  | VUndefined

datatype phase_message =
  LanguageString string "string \<rightharpoonup> template_value"
  | Literal string

definition formatDateForDisplay :: "Date \<Rightarrow> bool \<Rightarrow> template_value" where
  "formatDateForDisplay date withTime = VFormattedDate date withTime"

definition getAbatementPhaseMessage ::
  "string \<Rightarrow> (string \<rightharpoonup> template_value) \<Rightarrow> string option \<Rightarrow> phase_message" where
  "getAbatementPhaseMessage phase variables parcelId =
     (let vars =
        (case parcelId of
           None \<Rightarrow> variables
         | Some p \<Rightarrow> if p \<noteq> [] then variables(''parcel_id'' \<mapsto> VString p) else variables)
      in LanguageString (''periods.abatement_phases.'' @ phase) vars)"

definition getExemptionPhaseMessage ::
  "string \<Rightarrow> (string \<rightharpoonup> template_value) \<Rightarrow> phase_message" where
  "getExemptionPhaseMessage phase variables =
     LanguageString (''periods.exemption_phases.'' @ phase) variables"

definition optional_string :: "string option \<Rightarrow> template_value" where
  "optional_string s = (case s of None \<Rightarrow> VUndefined | Some p \<Rightarrow> VString p)"

record PhaseResult =
  phase :: string
  message :: phase_message
  deadline :: "Date option"

definition getAbatementPhase :: "Date \<Rightarrow> int \<Rightarrow> string option \<Rightarrow> PhaseResult" where
  "getAbatementPhase date year parcelId =
     (let currentYear = getFullYear date;
          jan1 = NEW_APPLICATION_PERIOD_BEGINS_getDate currentYear;
          abatementDeadline = ABATEMENT_APPLICATION_DEADLINE_getDate currentYear;
          july1 = NEW_FY_PRELIMINARY_TAX_PERIOD_BEGINS_getDate currentYear;
          nextJan1 = NEW_APPLICATION_PERIOD_BEGINS_getDate (currentYear + 1)
      in
      if date \<ge> jan1 \<and> date \<le> abatementDeadline then
        \<lparr>phase = ''open'',
         message = getAbatementPhaseMessage ''open''
           [''next_year'' \<mapsto> VNumber (year + 1),
            ''deadline_date'' \<mapsto> formatDateForDisplay abatementDeadline True,
            ''current_year'' \<mapsto> VNumber year,
            ''parcel_id'' \<mapsto> optional_string parcelId] parcelId,
         deadline = Some abatementDeadline\<rparr>
      else if date > abatementDeadline \<and> date < july1 then
        \<lparr>phase = ''after_deadline'',
         message = getAbatementPhaseMessage ''after_deadline''
           [''next_year'' \<mapsto> VNumber (year + 1),
            ''current_year'' \<mapsto> VNumber year,
            ''deadline_date'' \<mapsto> formatDateForDisplay abatementDeadline False] None,
         deadline = Some abatementDeadline\<rparr>
      else if date \<ge> july1 \<and> date < nextJan1 then
        \<lparr>phase = ''preliminary'',
         message = getAbatementPhaseMessage ''preliminary''
           [''current_fy'' \<mapsto> VNumber (currentYear + 1),
            ''current_year'' \<mapsto> VNumber (currentYear + 1),
            ''next_fy'' \<mapsto> VNumber (currentYear + 2),
            ''next_jan1_date'' \<mapsto> formatDateForDisplay nextJan1 False] None,
         deadline = Some abatementDeadline\<rparr>
      else
        \<lparr>phase = ''preliminary'',
         message = getAbatementPhaseMessage ''preliminary'' Map.empty None,
         deadline = None\<rparr>)"

datatype ExemptionType = Residential | Personal

definition ExemptionType_string :: "ExemptionType \<Rightarrow> string" where
  "ExemptionType_string ty = (case ty of Residential \<Rightarrow> ''Residential'' | Personal \<Rightarrow> ''Personal'')"

definition ExemptionType_toLowerCase :: "ExemptionType \<Rightarrow> string" where
  "ExemptionType_toLowerCase ty =
     (case ty of Residential \<Rightarrow> ''residential'' | Personal \<Rightarrow> ''personal'')"

text \<open>The options object \<open>{grantedCount, type}\<close>; the field \<open>type\<close> is \<open>exemption_type\<close>.\<close>

record ExemptionOpts =
  grantedCount :: int
  exemption_type :: ExemptionType

definition getExemptionPhase :: "Date \<Rightarrow> int \<Rightarrow> ExemptionOpts \<Rightarrow> PhaseResult" where
  "getExemptionPhase date year opts =
     (let jan1 = NEW_APPLICATION_PERIOD_BEGINS_getDate year;
          deadline = EXEMPTION_APPLICATION_DEADLINE_DATE_getDate year;
          july1 = NEW_FY_PRELIMINARY_TAX_PERIOD_BEGINS_getDate year;
          nextJan1 = NEW_APPLICATION_PERIOD_BEGINS_getDate (year + 1);
          ty = exemption_type opts
      in
      if date < jan1 then
        \<lparr>phase = ''before_jan1'',
         message = getExemptionPhaseMessage ''before_jan1''
           [''exemption_type'' \<mapsto> VString (ExemptionType_string ty),
            ''next_year'' \<mapsto> VNumber (year + 1),
            ''jan1_date'' \<mapsto> formatDateForDisplay jan1 False,
            ''current_year'' \<mapsto> VNumber year],
         deadline = None\<rparr>
      else if date \<ge> jan1 \<and> date \<le> deadline then
        \<lparr>phase = ''open'',
         message = getExemptionPhaseMessage ''open''
           [''exemption_type'' \<mapsto> VString (ExemptionType_string ty),
            ''next_year'' \<mapsto> VNumber (year + 1),
            ''deadline_date'' \<mapsto> formatDateForDisplay deadline True,
            ''current_year'' \<mapsto> VNumber year],
         deadline = Some deadline\<rparr>
      else if date \<ge> deadline \<and> date < july1 then
        \<lparr>phase = ''after_deadline'',
         message = getExemptionPhaseMessage ''after_deadline''
           [''exemption_type'' \<mapsto> VString (ExemptionType_string ty),
            ''next_year'' \<mapsto> VNumber (year + 1),
            ''deadline_date'' \<mapsto> formatDateForDisplay deadline False,
            ''next_fy'' \<mapsto> VNumber (year + 2),
            ''next_jan1_date'' \<mapsto> formatDateForDisplay nextJan1 False,
            ''current_year'' \<mapsto> VNumber year],
         deadline = Some deadline\<rparr>
      else if date \<ge> july1 \<and> date < nextJan1 then
        \<lparr>phase = ''preliminary'',
         message = getExemptionPhaseMessage ''preliminary''
           [''current_fy'' \<mapsto> VNumber (year + 1),
            ''exemption_type_lower'' \<mapsto> VString (ExemptionType_toLowerCase ty),
            ''next_fy'' \<mapsto> VNumber (year + 2),
            ''next_jan1_date'' \<mapsto> formatDateForDisplay nextJan1 False],
         deadline = Some deadline\<rparr>
      else
        \<lparr>phase = ''before_jan1'', message = Literal '''', deadline = None\<rparr>)"

section \<open>Fiscal configuration: tax rates by fiscal year\<close>

text \<open>
  The configuration is read from a YAML file that is not part of the code; it is a
  parameter here, typed as the interface \<open>FiscalDataConfig\<close> declares it. The table
  \<open>fiscalYears\<close> is an object keyed by year, modelled as an association list (a lookup
  finds the entry of a key). The field \<open>taxRates\<close> of \<open>defaults\<close> is \<open>default_taxRates\<close>.
\<close>

record TaxRates =
  residential :: real
  commercial :: real

record OwnerDisclaimerDates =
  q1 :: string
  q3 :: string

record FiscalYearData =
  taxRates :: TaxRates
  ownerDisclaimerDates :: OwnerDisclaimerDates

record Defaults =
  default_taxRates :: TaxRates
  ownerDisclaimerDate :: string

record FiscalDataConfig =
  fiscalYears :: "(int \<times> FiscalYearData) list"
  defaults :: Defaults

text \<open>\<open>Math.max\<close> of a list of numbers; of no numbers it is \<open>-Infinity\<close>, here \<open>None\<close>.\<close>

fun Math_max :: "int list \<Rightarrow> int option" where
  "Math_max [] = None"
| "Math_max (x # xs) = (case Math_max xs of None \<Rightarrow> Some x | Some m \<Rightarrow> Some (max x m))"

definition getLatestFiscalYear :: "FiscalDataConfig \<Rightarrow> int option" where
  "getLatestFiscalYear config =
     (let years = map fst (fiscalYears config) in Math_max years)"

text \<open>
  In \<open>getTaxRates\<close> the test \<open>yearData && yearData.taxRates\<close> holds exactly when the
  table has an entry for the year, since an entry's \<open>taxRates\<close> is an object. The
  comparison \<open>fiscalYear > latestYear\<close> holds when \<open>latestYear\<close> is \<open>-Infinity\<close>, and
  the table has no entry for \<open>-Infinity\<close>.
\<close>

definition getTaxRates :: "FiscalDataConfig \<Rightarrow> int \<Rightarrow> TaxRates" where
  "getTaxRates config fiscalYear =
     (case map_of (fiscalYears config) fiscalYear of
        Some yearData \<Rightarrow> taxRates yearData
      | None \<Rightarrow>
          (case getLatestFiscalYear config of
             None \<Rightarrow> default_taxRates (defaults config)
           | Some latestYear \<Rightarrow>
               if fiscalYear > latestYear then
                 (case map_of (fiscalYears config) latestYear of
                    Some latestYearData \<Rightarrow> taxRates latestYearData
                  | None \<Rightarrow> default_taxRates (defaults config))
               else default_taxRates (defaults config)))"

section \<open>Property data: values and text helpers\<close>

text \<open>
  An attribute value of a feature: \<open>null\<close>, \<open>undefined\<close>, a number or a string. Numbers
  are integers in the model. Strings are lists of characters; the case mappings and the
  classes of characters are those of ASCII.
\<close>

datatype js_value = JNull | JUndefined | JNumber int | JString string

definition isValid :: "js_value \<Rightarrow> bool" where
  "isValid v =
     (v \<noteq> JNull \<and> v \<noteq> JUndefined \<and>
      (case v of JNumber n \<Rightarrow> True | _ \<Rightarrow> v \<noteq> JString ''''))"

definition prioritizeValue :: "js_value \<Rightarrow> js_value \<Rightarrow> js_value" where
  "prioritizeValue residentialValue condoValue =
     (if isValid residentialValue then residentialValue
      else if isValid condoValue then condoValue
      else JUndefined)"

definition isWhiteSpace :: "char \<Rightarrow> bool" where
  "isWhiteSpace c = ((of_char c :: nat) \<in> {9, 10, 11, 12, 13, 32, 160})"

definition trim :: "string \<Rightarrow> string" where
  "trim s = rev (dropWhile isWhiteSpace (rev (dropWhile isWhiteSpace s)))"

definition toLowerCase_char :: "char \<Rightarrow> char" where
  "toLowerCase_char c =
     (case map_of (zip ''ABCDEFGHIJKLMNOPQRSTUVWXYZ'' ''abcdefghijklmnopqrstuvwxyz'') c of
        Some l \<Rightarrow> l | None \<Rightarrow> c)"

definition toUpperCase_char :: "char \<Rightarrow> char" where
  "toUpperCase_char c =
     (case map_of (zip ''abcdefghijklmnopqrstuvwxyz'' ''ABCDEFGHIJKLMNOPQRSTUVWXYZ'') c of
        Some u \<Rightarrow> u | None \<Rightarrow> c)"

definition toLowerCase :: "string \<Rightarrow> string" where
  "toLowerCase s = map toLowerCase_char s"

text \<open>The class \<open>\w\<close> of a regular expression: a letter, a digit or the underscore.\<close>

definition isWordChar :: "char \<Rightarrow> bool" where
  "isWordChar c =
     (c \<in> set ''ABCDEFGHIJKLMNOPQRSTUVWXYZabcdefghijklmnopqrstuvwxyz0123456789_'')"

text \<open>The class \<open>[A-Z0-9 .,'&-]\<close>.\<close>

definition isAbbreviationChar :: "char \<Rightarrow> bool" where
  "isAbbreviationChar c =
     (c \<in> set ''ABCDEFGHIJKLMNOPQRSTUVWXYZ0123456789 .,&-'' \<or> (of_char c :: nat) = 39)"

text \<open>\<open>/^[A-Z0-9 .,'&-]+$/.test(s)\<close>\<close>

definition test_abbreviation :: "string \<Rightarrow> bool" where
  "test_abbreviation s = (s \<noteq> [] \<and> list_all isAbbreviationChar s)"

text \<open>
  \<open>s.replace(/\b\w/g, (c) => c.toUpperCase())\<close>: every word character that follows a
  character that is not one, or starts the string, is replaced by its upper case. The
  flag tells whether the previous character is a word character.
\<close>

fun replace_word_starts :: "bool \<Rightarrow> string \<Rightarrow> string" where
  "replace_word_starts prev [] = []"
| "replace_word_starts prev (c # cs) =
     (if isWordChar c then (if prev then c else toUpperCase_char c) # replace_word_starts True cs
      else c # replace_word_starts False cs)"

text \<open>
  \<open>String(n)\<close> of an integer: its decimal digits. This is what JavaScript prints for
  an integer of magnitude below 10 to the power 21; greater ones, which it prints with an
  exponent, and numbers that are not integers are outside the model.
\<close>

function digits_of :: "nat \<Rightarrow> string" where
  "digits_of n =
     (if n < 10 then [''0123456789'' ! n]
      else digits_of (n div 10) @ [''0123456789'' ! (n mod 10)])"
  by pat_completeness auto
termination
  by (relation "measure id") auto

declare digits_of.simps [simp del]

definition String_js :: "js_value \<Rightarrow> string" where
  "String_js v =
     (case v of
        JNull \<Rightarrow> ''null''
      | JUndefined \<Rightarrow> ''undefined''
      | JNumber n \<Rightarrow> (if n < 0 then ''-'' @ digits_of (nat (- n)) else digits_of (nat n))
      | JString s \<Rightarrow> s)"

definition toProperCase :: "js_value \<Rightarrow> string" where
  "toProperCase str =
     (if str = JNull \<or> str = JUndefined then ''''
      else
        let strValue = (case str of JString s \<Rightarrow> s | _ \<Rightarrow> String_js str) in
        if strValue = [] \<or> trim strValue = [] then ''''
        else if test_abbreviation strValue \<and> length strValue \<le> 6 then strValue
        else replace_word_starts False (toLowerCase strValue))"

text \<open>\<open>s.indexOf(pat)\<close>: the first position at which \<open>pat\<close> occurs in \<open>s\<close>, or -1.\<close>

fun indexOf_from :: "nat \<Rightarrow> string \<Rightarrow> string \<Rightarrow> int" where
  "indexOf_from i [] pat = (if pat = [] then int i else - 1)"
| "indexOf_from i (c # cs) pat =
     (if take (length pat) (c # cs) = pat then int i else indexOf_from (Suc i) cs pat)"

definition indexOf :: "string \<Rightarrow> string \<Rightarrow> int" where
  "indexOf s pat = indexOf_from 0 s pat"

text \<open>\<open>s.slice(k)\<close> for a position \<open>k\<close> that is not negative.\<close>

definition slice :: "string \<Rightarrow> int \<Rightarrow> string" where
  "slice s k = drop (nat k) s"

definition parseAfterDash :: "js_value \<Rightarrow> string" where
  "parseAfterDash v =
     (if v = JNull \<or> v = JUndefined then ''''
      else
        let strValue = (case v of JString s \<Rightarrow> s | _ \<Rightarrow> String_js v) in
        if strValue = [] \<or> trim strValue = [] then ''''
        else
          let idx = indexOf strValue '' - '';
              result = (if idx \<noteq> - 1 then trim (slice strValue (idx + 3)) else trim strValue)
          in toProperCase (JString result))"

text \<open>\<open>a || b\<close> on values: \<open>a\<close> when it is truthy, otherwise \<open>b\<close>.\<close>

definition truthy :: "js_value \<Rightarrow> bool" where
  "truthy v =
     (case v of
        JNull \<Rightarrow> False
      | JUndefined \<Rightarrow> False
      | JNumber n \<Rightarrow> n \<noteq> 0
      | JString s \<Rightarrow> s \<noteq> [])"

definition js_or :: "js_value \<Rightarrow> js_value \<Rightarrow> js_value" where
  "js_or a b = (if truthy a then a else b)"

text \<open>
  The field \<open>foundation\<close> of the merged record, from the attribute \<open>foundation\<close> of the
  primary residential row and of the condo row.
\<close>

definition merged_foundation :: "js_value \<Rightarrow> js_value \<Rightarrow> js_value" where
  "merged_foundation residential_foundation condo_foundation =
     js_or
       (prioritizeValue
          (JString (toProperCase (JString (parseAfterDash residential_foundation))))
          (JString (toProperCase (JString (parseAfterDash condo_foundation)))))
       (JString ''Not available'')"

section \<open>Paginated queries of a layer\<close>

text \<open>
  A response of the query API: the features of the page (the field may be absent) and
  the flag \<open>exceededTransferLimit\<close> (it may be absent). The type of a feature is left
  open.
\<close>

record 'f EGISQueryResponse =
  features :: "'f list option"
  exceededTransferLimit :: "bool option"

text \<open>
  What one call of \<open>fetch\<close> and the reading of its body can do: reject (the call, or the
  parsing of the body), answer with a status that is not OK, or answer OK with a body
  (\<open>None\<close> for a body that parses to a falsy value such as \<open>null\<close>). The network is a
  function from the number of the call (counted from 0 within one \<open>fetchEGISData\<close>) and
  the offset requested to the outcome. Waiting between attempts is not modelled.
\<close>

datatype 'f fetch_outcome = Rejects | NotOk | OkJson "'f EGISQueryResponse option"

datatype fetch_error = FetchRejected | FailedAfterRetries

definition maxRetries :: nat where
  "maxRetries = 3"

text \<open>
  The retry loop of one page request: the result is the error thrown or the body read,
  and the number of calls of \<open>fetch\<close> made so far.
\<close>

function retry_request ::
  "(nat \<Rightarrow> nat \<Rightarrow> 'f fetch_outcome) \<Rightarrow> nat \<Rightarrow> nat \<Rightarrow> nat \<Rightarrow>
     (fetch_error + 'f EGISQueryResponse) \<times> nat" where
  "retry_request fetch offset calls retryCount =
     (if retryCount < maxRetries then
        (case fetch calls offset of
           OkJson data \<Rightarrow>
             (case data of
                None \<Rightarrow> (Inl FailedAfterRetries, Suc calls)
              | Some d \<Rightarrow> (Inr d, Suc calls))
         | NotOk \<Rightarrow> retry_request fetch offset (Suc calls) (Suc retryCount)
         | Rejects \<Rightarrow>
             if Suc retryCount = maxRetries then (Inl FetchRejected, Suc calls)
             else retry_request fetch offset (Suc calls) (Suc retryCount))
      else (Inl FailedAfterRetries, calls))"
  by pat_completeness auto
termination
  by (relation "measure (\<lambda>(fetch, offset, calls, retryCount). maxRetries - retryCount)") auto

declare retry_request.simps [simp del]

text \<open>The features of a page are appended in batches of 100.\<close>

function push_batches :: "'f list \<Rightarrow> nat \<Rightarrow> 'f list \<Rightarrow> 'f list" where
  "push_batches fs i allFeatures =
     (if i < length fs then push_batches fs (i + 100) (allFeatures @ take 100 (drop i fs))
      else allFeatures)"
  by pat_completeness auto
termination
  by (relation "measure (\<lambda>(fs, i, allFeatures). length fs - i)") auto

declare push_batches.simps [simp del]

text \<open>
  The variables of \<open>fetchEGISData\<close>, the number of calls of \<open>fetch\<close> made and the offsets
  of the page requests issued, in order.
\<close>

record 'f fetch_state =
  allFeatures :: "'f list"
  resultOffset :: nat
  requestCount :: nat
  fetchCalls :: nat
  requestedOffsets :: "nat list"

definition page_features :: "'f EGISQueryResponse \<Rightarrow> 'f list" where
  "page_features data = (case features data of None \<Rightarrow> [] | Some fs \<Rightarrow> fs)"

text \<open>The loop \<open>while (true)\<close>; it need not end, so its result is optional.\<close>

partial_function (option) fetchEGISData_loop ::
  "(nat \<Rightarrow> nat \<Rightarrow> 'f fetch_outcome) \<Rightarrow> 'f fetch_state \<Rightarrow> (fetch_error + 'f fetch_state) option"
where
  "fetchEGISData_loop fetch s =
     (let s1 = s\<lparr>requestCount := Suc (requestCount s),
                 requestedOffsets := requestedOffsets s @ [resultOffset s]\<rparr>
      in
      case retry_request fetch (resultOffset s1) (fetchCalls s1) 0 of
        (Inl e, calls) \<Rightarrow> Some (Inl e)
      | (Inr data, calls) \<Rightarrow>
          (let s2 = s1\<lparr>fetchCalls := calls\<rparr>;
               fs = page_features data
           in
           if length fs = 0 then Some (Inr s2)
           else
             (let s3 = s2\<lparr>allFeatures := push_batches fs 0 (allFeatures s2)\<rparr> in
              if exceededTransferLimit data \<noteq> Some True then Some (Inr s3)
              else fetchEGISData_loop fetch (s3\<lparr>resultOffset := resultOffset s3 + length fs\<rparr>))))"

definition initial_state :: "'f fetch_state" where
  "initial_state =
     \<lparr>allFeatures = [], resultOffset = 0, requestCount = 0, fetchCalls = 0,
      requestedOffsets = []\<rparr>"

definition fetchEGISData ::
  "(nat \<Rightarrow> nat \<Rightarrow> 'f fetch_outcome) \<Rightarrow> (fetch_error + 'f list) option" where
  "fetchEGISData fetch =
     (case fetchEGISData_loop fetch initial_state of
        None \<Rightarrow> None
      | Some (Inl e) \<Rightarrow> Some (Inl e)
      | Some (Inr s) \<Rightarrow> Some (Inr (allFeatures s)))"

text \<open>
  The offsets at which a sequence of pages is requested, starting from an offset: each
  is the one before plus the number of features of the page before.
\<close>

fun page_offsets :: "nat \<Rightarrow> 'f EGISQueryResponse list \<Rightarrow> nat list" where
  "page_offsets off [] = []"
| "page_offsets off (p # ps) = off # page_offsets (off + length (page_features p)) ps"

text \<open>
  The network serves a sequence of pages: from a given call on, the first attempt of each
  page request, made at the offset the loop has reached, is answered OK with the next
  page.
\<close>

fun serves ::
  "(nat \<Rightarrow> nat \<Rightarrow> 'f fetch_outcome) \<Rightarrow> nat \<Rightarrow> nat \<Rightarrow> 'f EGISQueryResponse list \<Rightarrow> bool" where
  "serves fetch call off [] = True"
| "serves fetch call off (p # ps) =
     (fetch call off = OkJson (Some p) \<and>
      serves fetch (Suc call) (off + length (page_features p)) ps)"

text \<open>An example: three pages, served by the number of the call whatever the offset.\<close>

definition example_pages :: "string EGISQueryResponse list" where
  "example_pages =
     [\<lparr>features = Some [''a'', ''b''], exceededTransferLimit = Some True\<rparr>,
      \<lparr>features = Some [''c''], exceededTransferLimit = Some True\<rparr>,
      \<lparr>features = Some [''d'', ''e''], exceededTransferLimit = Some False\<rparr>]"

definition example_fetch :: "nat \<Rightarrow> nat \<Rightarrow> string fetch_outcome" where
  "example_fetch call off =
     (if call < length example_pages then OkJson (Some (example_pages ! call)) else Rejects)"

text \<open>The configuration that the documentation of the tax rates gives as its example.\<close>

definition example_config :: FiscalDataConfig where
  "example_config =
     \<lparr>fiscalYears =
        [(2026,
          \<lparr>taxRates = \<lparr>residential = 12.40, commercial = 26.96\<rparr>,
           ownerDisclaimerDates = \<lparr>q1 = ''April 25, 2025'', q3 = ''October 25, 2025''\<rparr>\<rparr>)],
      defaults =
        \<lparr>default_taxRates = \<lparr>residential = 11.58, commercial = 25.96\<rparr>,
         ownerDisclaimerDate = ''October 25, 2024''\<rparr>\<rparr>"

section \<open>Facts about the calendar and the anchors\<close>

lemma YearFromDay_estimate: "DayFromYear (1970 + (if d < 0 then d div 365 else d div 366)) \<le> d"
proof (cases "d < 0")
  case True
  define k where "k = d div 365"
  have kd: "365 * k \<le> d" unfolding k_def using div_lo [of 365 d] by simp
  have kneg: "k < 0" unfolding k_def using True by (simp add: div_neg_pos_less0)
  define A where "A = (k + 1) div 4"
  define B where "B = (k + 69) div 100"
  define C where "C = (k + 369) div 400"
  have a: "4 * A \<le> k + 1" unfolding A_def using div_lo [of 4 "k + 1"] by simp
  have b: "k + 69 < 100 * B + 100" unfolding B_def using div_hi [of 100 "k + 69"] by simp
  have c: "400 * C \<le> k + 369" unfolding C_def using div_lo [of 400 "k + 369"] by simp
  have "A - B + C \<le> 0"
  proof (cases "k = - 1")
    case True
    then show ?thesis by (simp add: A_def B_def C_def)
  next
    case False
    then have "k \<le> - 2" using kneg by linarith
    then show ?thesis using a b c by linarith
  qed
  moreover have "DayFromYear (1970 + k) = 365 * k + A - B + C"
    by (simp add: DayFromYear_def A_def B_def C_def algebra_simps)
  ultimately show ?thesis using True kd by (simp add: k_def)
next
  case False
  define k where "k = d div 366"
  have kd: "366 * k \<le> d" unfolding k_def using div_lo [of 366 d] by simp
  have kpos: "0 \<le> k" unfolding k_def using False by (simp add: pos_imp_zdiv_nonneg_iff)
  define A where "A = (k + 1) div 4"
  define B where "B = (k + 69) div 100"
  define C where "C = (k + 369) div 400"
  have a: "4 * A \<le> k + 1" unfolding A_def using div_lo [of 4 "k + 1"] by simp
  have b: "k + 69 < 100 * B + 100" unfolding B_def using div_hi [of 100 "k + 69"] by simp
  have c: "400 * C \<le> k + 369" unfolding C_def using div_lo [of 400 "k + 369"] by simp
  have "A - B + C \<le> k"
  proof (cases "k = 0")
    case True
    then show ?thesis by (simp add: A_def B_def C_def)
  next
    case False
    then have "1 \<le> k" using kpos by linarith
    then show ?thesis using a b c by linarith
  qed
  moreover have "DayFromYear (1970 + k) = 365 * k + A - B + C"
    by (simp add: DayFromYear_def A_def B_def C_def algebra_simps)
  ultimately show ?thesis using False kd by (simp add: k_def)
qed

lemma YearFromDay_search_bounds:
  "DayFromYear y \<le> d \<Longrightarrow>
     DayFromYear (YearFromDay_search d y) \<le> d \<and> d < DayFromYear (YearFromDay_search d y + 1)"
proof (induction d y rule: YearFromDay_search.induct)
  case (1 d y)
  show ?case
  proof (cases "DayFromYear (y + 1) \<le> d")
    case True
    then have "YearFromDay_search d y = YearFromDay_search d (y + 1)"
      by (subst YearFromDay_search.simps) simp
    then show ?thesis using "1.IH" [OF True True] by simp
  next
    case False
    then have "YearFromDay_search d y = y"
      by (subst YearFromDay_search.simps) simp
    then show ?thesis using False "1.prems" by simp
  qed
qed

lemma YearFromDay_bounds:
  "DayFromYear (YearFromDay d) \<le> d" "d < DayFromYear (YearFromDay d + 1)"
  using YearFromDay_search_bounds [OF YearFromDay_estimate [of d]]
  by (simp_all add: YearFromDay_def)

lemma DayFromYear_mono: "y \<le> z \<Longrightarrow> DayFromYear y \<le> DayFromYear z"
proof -
  have "DayFromYear y \<le> DayFromYear (y + int n)" for n
  proof (induction n)
    case 0
    show ?case by simp
  next
    case (Suc n)
    have "DayFromYear (y + int (Suc n)) = DayFromYear (y + int n) + DaysInYear (y + int n)"
      using DayFromYear_Suc [of "y + int n"] by (simp add: algebra_simps)
    then show ?case using Suc DaysInYear_bounds(1) [of "y + int n"] by linarith
  qed
  moreover assume "y \<le> z"
  then have "z = y + int (nat (z - y))" by simp
  ultimately show ?thesis by metis
qed

lemma YearFromDay_unique:
  assumes "DayFromYear y \<le> d" and "d < DayFromYear (y + 1)"
  shows "YearFromDay d = y"
proof (rule antisym)
  show "YearFromDay d \<le> y"
  proof (rule ccontr)
    assume "\<not> YearFromDay d \<le> y"
    then have "y + 1 \<le> YearFromDay d" by simp
    then have "DayFromYear (y + 1) \<le> DayFromYear (YearFromDay d)" by (rule DayFromYear_mono)
    then show False using assms(2) YearFromDay_bounds(1) [of d] by linarith
  qed
  show "y \<le> YearFromDay d"
  proof (rule ccontr)
    assume "\<not> y \<le> YearFromDay d"
    then have "YearFromDay d + 1 \<le> y" by simp
    then have "DayFromYear (YearFromDay d + 1) \<le> DayFromYear y" by (rule DayFromYear_mono)
    then show False using assms(1) YearFromDay_bounds(2) [of d] by linarith
  qed
qed

text \<open>
  The search computes what the standard defines: \<open>YearFromTime(t)\<close> is the largest year
  that starts on or before the day of \<open>t\<close>.
\<close>

lemma YearFromTime_largest:
  "DayFromYear (YearFromTime t) \<le> Day t \<and>
   (\<forall>y. DayFromYear y \<le> Day t \<longrightarrow> y \<le> YearFromTime t)"
proof (intro conjI allI impI)
  show "DayFromYear (YearFromTime t) \<le> Day t"
    using YearFromDay_bounds(1) [of "Day t"] by (simp add: YearFromTime_def)
next
  fix y
  assume a: "DayFromYear y \<le> Day t"
  show "y \<le> YearFromTime t"
  proof (rule ccontr)
    assume "\<not> y \<le> YearFromTime t"
    then have "YearFromDay (Day t) + 1 \<le> y" by (simp add: YearFromTime_def)
    then have "DayFromYear (YearFromDay (Day t) + 1) \<le> DayFromYear y"
      by (rule DayFromYear_mono)
    then show False using a YearFromDay_bounds(2) [of "Day t"] by linarith
  qed
qed

lemma msPerDay_pos: "0 < msPerDay"
  by (simp add: msPerDay_def)

lemma Day_le_iff: "a * msPerDay \<le> t \<longleftrightarrow> a \<le> Day t"
  using div_lo [of msPerDay t] div_hi [of msPerDay t]
  by (auto simp add: Day_def msPerDay_def)

lemma Day_less_iff: "t < a * msPerDay \<longleftrightarrow> Day t < a"
  using Day_le_iff [of a t] by linarith

lemma InLeapYear_of_cases: "InLeapYear_of y = 0 \<or> InLeapYear_of y = 1"
  by (simp add: InLeapYear_of_def)

lemma DaysInYear_leap: "DaysInYear y = 365 + InLeapYear_of y"
  using DaysInYear_bounds [of y] by (simp add: InLeapYear_of_def DaysInYear_def)

lemma MonthFromTime_range: "0 \<le> MonthFromTime t \<and> MonthFromTime t \<le> 11"
  by (simp add: MonthFromTime_def Let_def)

lemma MonthFromTime_ge_6: "6 \<le> MonthFromTime t \<longleftrightarrow> 181 + InLeapYear t \<le> DayWithinYear t"
  using InLeapYear_of_cases [of "YearFromTime t"]
  by (auto simp add: MonthFromTime_def Let_def InLeapYear_def)

lemma MakeDay_month:
  "0 \<le> m \<Longrightarrow> m \<le> 11 \<Longrightarrow>
     MakeDay y m dt = DayFromYear y + monthStart m (InLeapYear_of y) + dt - 1"
  by (simp add: MakeDay_def Let_def)

text \<open>Setting the day of the month to the current one plus \<open>k\<close> moves the date by \<open>k\<close> days.\<close>

lemma setDate_getDate: "setDate t (getDate t + k) = t + k * msPerDay"
proof -
  have "MakeDay (YearFromTime t) (MonthFromTime t) (DateFromTime t + k) = Day t + k"
    using MonthFromTime_range [of t]
    by (simp add: MakeDay_month DateFromTime_def DayWithinYear_def InLeapYear_def)
  moreover have "Day t * msPerDay + TimeWithinDay t = t"
    by (simp add: Day_def TimeWithinDay_def)
  ultimately show ?thesis
    by (simp add: setDate_def getDate_def MakeDate_def algebra_simps)
qed

lemma Day_plus_days: "Day (t + k * msPerDay) = Day t + k"
  by (simp add: Day_def msPerDay_def)

lemma getDay_plus_days: "getDay (t + k * msPerDay) = (getDay t + k) mod 7"
proof -
  have "getDay (t + k * msPerDay) = (Day t + k + 4) mod 7"
    by (simp add: getDay_def WeekDay_def Day_plus_days)
  also have "\<dots> = (Day t + 4 + k) mod 7"
    by (simp add: algebra_simps)
  also have "\<dots> = ((Day t + 4) mod 7 + k) mod 7"
    by (simp add: mod_add_left_eq)
  finally show ?thesis
    by (simp add: getDay_def WeekDay_def)
qed

lemma getNextMonday_cases:
  "getNextMonday date =
     (if getDay date = 6 then date + 2 * msPerDay
      else if getDay date = 0 then date + 1 * msPerDay
      else date)"
  using setDate_getDate [of date 2] setDate_getDate [of date 1]
  by (simp add: getNextMonday_def Let_def)

lemma getNextMonday_range:
  "date \<le> getNextMonday date" "getNextMonday date \<le> date + 2 * msPerDay"
  by (simp_all add: getNextMonday_cases msPerDay_def)

text \<open>The year that \<open>new Date(year, ...)\<close> denotes.\<close>

lemma newDate_first_of_month:
  "0 \<le> m \<Longrightarrow> m \<le> 11 \<Longrightarrow>
     newDate y m 1 =
       (DayFromYear (if 0 \<le> y \<and> y \<le> 99 then 1900 + y else y) +
        monthStart m (InLeapYear_of (if 0 \<le> y \<and> y \<le> 99 then 1900 + y else y))) * msPerDay"
  by (simp add: newDate_def Let_def MakeDay_month MakeDate_def)

lemma anchors_days:
  fixes year :: int
  defines "yr \<equiv> (if 0 \<le> year \<and> year \<le> 99 then 1900 + year else year)"
  shows "NEW_APPLICATION_PERIOD_BEGINS_getDate year = DayFromYear yr * msPerDay"
    and "newDate year 1 1 = (DayFromYear yr + 31) * msPerDay"
    and "EXEMPTIONS_IN_PROGRESS_getDate year = (DayFromYear yr + 59 + InLeapYear_of yr) * msPerDay"
    and "newDate year 3 1 = (DayFromYear yr + 90 + InLeapYear_of yr) * msPerDay"
    and "NEW_FY_PRELIMINARY_TAX_PERIOD_BEGINS_getDate year =
           (DayFromYear yr + 181 + InLeapYear_of yr) * msPerDay"
  unfolding yr_def NEW_APPLICATION_PERIOD_BEGINS_getDate_def EXEMPTIONS_IN_PROGRESS_getDate_def
    NEW_FY_PRELIMINARY_TAX_PERIOD_BEGINS_getDate_def
  by (simp_all add: newDate_first_of_month monthStart_def)

lemma anchors_order_aux:
  "NEW_APPLICATION_PERIOD_BEGINS_getDate year < ABATEMENT_APPLICATION_DEADLINE_getDate year"
  "ABATEMENT_APPLICATION_DEADLINE_getDate year < EXEMPTIONS_IN_PROGRESS_getDate year"
  "ABATEMENT_APPLICATION_DEADLINE_getDate year < NEW_FY_PRELIMINARY_TAX_PERIOD_BEGINS_getDate year"
  "NEW_APPLICATION_PERIOD_BEGINS_getDate year < EXEMPTION_APPLICATION_DEADLINE_DATE_getDate year"
  "EXEMPTION_APPLICATION_DEADLINE_DATE_getDate year
     < NEW_FY_PRELIMINARY_TAX_PERIOD_BEGINS_getDate year"
proof -
  define yr where "yr = (if 0 \<le> year \<and> year \<le> 99 then 1900 + year else year)"
  define D where "D = DayFromYear yr"
  define l where "l = InLeapYear_of yr"
  have l: "0 \<le> l" "l \<le> 1"
    using InLeapYear_of_cases [of yr] by (auto simp add: l_def)
  have jan: "NEW_APPLICATION_PERIOD_BEGINS_getDate year = D * 86400000"
    and feb: "newDate year 1 1 = D * 86400000 + 31 * 86400000"
    and mar: "EXEMPTIONS_IN_PROGRESS_getDate year =
        D * 86400000 + 59 * 86400000 + l * 86400000"
    and apr: "newDate year 3 1 = D * 86400000 + 90 * 86400000 + l * 86400000"
    and jul: "NEW_FY_PRELIMINARY_TAX_PERIOD_BEGINS_getDate year =
        D * 86400000 + 181 * 86400000 + l * 86400000"
    using anchors_days [of year]
    by (simp_all add: yr_def D_def l_def msPerDay_def algebra_simps)
  have ab: "newDate year 1 1 \<le> ABATEMENT_APPLICATION_DEADLINE_getDate year"
    "ABATEMENT_APPLICATION_DEADLINE_getDate year \<le> newDate year 1 1 + 2 * 86400000"
    using getNextMonday_range [of "newDate year 1 1"]
    by (simp_all add: ABATEMENT_APPLICATION_DEADLINE_getDate_def msPerDay_def)
  have ex: "newDate year 3 1 \<le> EXEMPTION_APPLICATION_DEADLINE_DATE_getDate year"
    "EXEMPTION_APPLICATION_DEADLINE_DATE_getDate year \<le> newDate year 3 1 + 2 * 86400000"
    using getNextMonday_range [of "newDate year 3 1"]
    by (simp_all add: EXEMPTION_APPLICATION_DEADLINE_DATE_getDate_def msPerDay_def)
  show "NEW_APPLICATION_PERIOD_BEGINS_getDate year < ABATEMENT_APPLICATION_DEADLINE_getDate year"
    using jan feb ab by linarith
  show "ABATEMENT_APPLICATION_DEADLINE_getDate year < EXEMPTIONS_IN_PROGRESS_getDate year"
    using feb mar ab l by linarith
  show "ABATEMENT_APPLICATION_DEADLINE_getDate year
      < NEW_FY_PRELIMINARY_TAX_PERIOD_BEGINS_getDate year"
    using feb jul ab l by linarith
  show "NEW_APPLICATION_PERIOD_BEGINS_getDate year
      < EXEMPTION_APPLICATION_DEADLINE_DATE_getDate year"
    using jan apr ex l by linarith
  show "EXEMPTION_APPLICATION_DEADLINE_DATE_getDate year
      < NEW_FY_PRELIMINARY_TAX_PERIOD_BEGINS_getDate year"
    using apr jul ex l by linarith
qed


lemmas calendar_defs =
  newDate_def MakeDate_def MakeDay_def DayFromYear_def monthStart_def InLeapYear_of_def
  DaysInYear_def getDay_def WeekDay_def Day_def msPerDay_def

lemmas year_defs =
  getFullYear_def YearFromTime_def YearFromDay_def YearFromDay_search.simps

lemmas anchor_defs =
  NEW_APPLICATION_PERIOD_BEGINS_getDate_def ABATEMENT_APPLICATION_DEADLINE_getDate_def
  EXEMPTIONS_IN_PROGRESS_getDate_def EXEMPTION_APPLICATION_DEADLINE_getDate_def
  NEW_FY_PRELIMINARY_TAX_PERIOD_BEGINS_getDate_def
  EXEMPTION_APPLICATION_DEADLINE_DATE_getDate_def

text \<open>
  Some dates: 1 January 1970 is the time value 0; 1 April 2026 is a Wednesday; 2024 has a
  29 February; a two-digit year is a year of the twentieth century; setting the day of
  the month past the end of the month moves into the next month.
\<close>

lemma calendar_examples:
  "newDate 1970 0 1 = 0"
  "getFullYear (newDate 2026 3 1) = 2026"
  "getMonth (newDate 2026 3 1) = 3"
  "getDate (newDate 2026 3 1) = 1"
  "getDay (newDate 2026 3 1) = 3"
  "getMonth (newDate 2024 1 29) = 1"
  "getDate (newDate 2024 1 29) = 29"
  "getMonth (newDate 2025 1 29) = 2"
  "newDate 99 11 31 = newDate 1999 11 31"
  "getFullYear (newDate 99 11 31) = 1999"
  "setDate (newDate 2025 0 31) 32 = newDate 2025 1 1"
  by (simp_all add: calendar_defs year_defs getMonth_def MonthFromTime_def getDate_def
      DateFromTime_def DayWithinYear_def InLeapYear_def setDate_def TimeWithinDay_def Let_def)

lemma getExemptionPhase_phase:
  "phase (getExemptionPhase date year opts) =
     (let jan1 = NEW_APPLICATION_PERIOD_BEGINS_getDate year;
          deadline = EXEMPTION_APPLICATION_DEADLINE_DATE_getDate year;
          july1 = NEW_FY_PRELIMINARY_TAX_PERIOD_BEGINS_getDate year;
          nextJan1 = NEW_APPLICATION_PERIOD_BEGINS_getDate (year + 1)
      in if date < jan1 then ''before_jan1''
         else if date \<ge> jan1 \<and> date \<le> deadline then ''open''
         else if date \<ge> deadline \<and> date < july1 then ''after_deadline''
         else if date \<ge> july1 \<and> date < nextJan1 then ''preliminary''
         else ''before_jan1'')"
  by (simp add: getExemptionPhase_def Let_def)

lemma getAbatementPhase_phase:
  "phase (getAbatementPhase date year parcelId) =
     (let currentYear = getFullYear date;
          jan1 = NEW_APPLICATION_PERIOD_BEGINS_getDate currentYear;
          abatementDeadline = ABATEMENT_APPLICATION_DEADLINE_getDate currentYear;
          july1 = NEW_FY_PRELIMINARY_TAX_PERIOD_BEGINS_getDate currentYear;
          nextJan1 = NEW_APPLICATION_PERIOD_BEGINS_getDate (currentYear + 1)
      in if date \<ge> jan1 \<and> date \<le> abatementDeadline then ''open''
         else if date > abatementDeadline \<and> date < july1 then ''after_deadline''
         else if date \<ge> july1 \<and> date < nextJan1 then ''preliminary''
         else ''preliminary'')"
  by (simp add: getAbatementPhase_def Let_def)

lemma getAbatementPhase_deadline:
  "deadline (getAbatementPhase date year parcelId) =
     (let currentYear = getFullYear date;
          jan1 = NEW_APPLICATION_PERIOD_BEGINS_getDate currentYear;
          abatementDeadline = ABATEMENT_APPLICATION_DEADLINE_getDate currentYear;
          july1 = NEW_FY_PRELIMINARY_TAX_PERIOD_BEGINS_getDate currentYear;
          nextJan1 = NEW_APPLICATION_PERIOD_BEGINS_getDate (currentYear + 1)
      in if date \<ge> jan1 \<and> date \<le> abatementDeadline then Some abatementDeadline
         else if date > abatementDeadline \<and> date < july1 then Some abatementDeadline
         else if date \<ge> july1 \<and> date < nextJan1 then Some abatementDeadline
         else None)"
  by (simp add: getAbatementPhase_def Let_def)

lemma PhaseResult_eq_upto_message:
  fixes r r' :: PhaseResult
  assumes "phase r = phase r'" and "deadline r = deadline r'"
  shows "r\<lparr>message := m\<rparr> = r'\<lparr>message := m\<rparr>"
  using assms by (cases r, cases r') simp

section \<open>Properties of the period calculations\<close>

text \<open>
  C5. For every date, \<open>getNextMonday\<close> returns the date moved forward by exactly two days
  when it falls on a Saturday (day 6) and by exactly one day when it falls on a Sunday
  (day 0), and in both cases the result is a Monday (day 1); on any other day of the week
  it returns the date unchanged.
\<close>

theorem getNextMonday_shift:
  "(getDay date = 6 \<longrightarrow>
      getNextMonday date = date + 2 * msPerDay \<and> getDay (getNextMonday date) = 1) \<and>
   (getDay date = 0 \<longrightarrow>
      getNextMonday date = date + 1 * msPerDay \<and> getDay (getNextMonday date) = 1) \<and>
   (getDay date \<noteq> 6 \<and> getDay date \<noteq> 0 \<longrightarrow> getNextMonday date = date)"
  using getDay_plus_days [of date 2] getDay_plus_days [of date 1]
  by (simp add: getNextMonday_cases)

text \<open>1 February 2025 is a Saturday, 2 February 2025 is a Sunday, 1 April 2026 is a Wednesday.\<close>

theorem getNextMonday_shift_witness:
  "getDay (newDate 2025 1 1) = 6 \<and>
   getNextMonday (newDate 2025 1 1) = newDate 2025 1 1 + 2 * msPerDay \<and>
   getDay (getNextMonday (newDate 2025 1 1)) = 1 \<and>
   getDay (newDate 2025 1 2) = 0 \<and>
   getNextMonday (newDate 2025 1 2) = newDate 2025 1 2 + 1 * msPerDay \<and>
   getDay (getNextMonday (newDate 2025 1 2)) = 1 \<and>
   getDay (newDate 2026 3 1) = 3 \<and>
   getNextMonday (newDate 2026 3 1) = newDate 2026 3 1"
proof -
  have sat: "getDay (newDate 2025 1 1) = 6"
    by (simp add: calendar_defs)
  have sun: "getDay (newDate 2025 1 2) = 0"
    by (simp add: calendar_defs)
  have wed: "getDay (newDate 2026 3 1) = 3"
    by (simp add: calendar_defs)
  have a: "getNextMonday (newDate 2025 1 1) = newDate 2025 1 1 + 2 * msPerDay \<and>
      getDay (getNextMonday (newDate 2025 1 1)) = 1"
    using sat getNextMonday_shift [of "newDate 2025 1 1"] by blast
  have b: "getNextMonday (newDate 2025 1 2) = newDate 2025 1 2 + 1 * msPerDay \<and>
      getDay (getNextMonday (newDate 2025 1 2)) = 1"
    using sun getNextMonday_shift [of "newDate 2025 1 2"] by blast
  have c: "getNextMonday (newDate 2026 3 1) = newDate 2026 3 1"
    using wed getNextMonday_shift [of "newDate 2026 3 1"] by simp
  show ?thesis
    using sat sun wed a b c by blast
qed

text \<open>
  C6. For every year the anchors are ordered: 1 January is strictly before the abatement
  deadline; the abatement deadline is on or before the grace deadline, which is the
  abatement deadline plus 28 days; the abatement deadline is strictly before the
  exemptions-in-progress anchor (1 March) and strictly before the start of the fiscal
  year (1 July); and the exemption deadline is strictly before the start of the fiscal
  year.
\<close>

theorem anchors_ordered:
  "NEW_APPLICATION_PERIOD_BEGINS_getDate year < ABATEMENT_APPLICATION_DEADLINE_getDate year \<and>
   ABATEMENT_APPLICATION_DEADLINE_getDate year \<le> ABATEMENT_GRACE_PERIOD_DEADLINE_getDate year \<and>
   ABATEMENT_GRACE_PERIOD_DEADLINE_getDate year =
     ABATEMENT_APPLICATION_DEADLINE_getDate year + 28 * msPerDay \<and>
   ABATEMENT_APPLICATION_DEADLINE_getDate year < EXEMPTIONS_IN_PROGRESS_getDate year \<and>
   ABATEMENT_APPLICATION_DEADLINE_getDate year
     < NEW_FY_PRELIMINARY_TAX_PERIOD_BEGINS_getDate year \<and>
   EXEMPTION_APPLICATION_DEADLINE_getDate year
     < NEW_FY_PRELIMINARY_TAX_PERIOD_BEGINS_getDate year"
proof -
  have grace: "ABATEMENT_GRACE_PERIOD_DEADLINE_getDate year =
      ABATEMENT_APPLICATION_DEADLINE_getDate year + 28 * msPerDay"
    by (simp add: ABATEMENT_GRACE_PERIOD_DEADLINE_getDate_def Let_def setDate_getDate)
  then have "ABATEMENT_APPLICATION_DEADLINE_getDate year
      \<le> ABATEMENT_GRACE_PERIOD_DEADLINE_getDate year"
    by (simp add: msPerDay_def)
  moreover have "EXEMPTION_APPLICATION_DEADLINE_getDate year =
      EXEMPTION_APPLICATION_DEADLINE_DATE_getDate year"
    by (simp add: EXEMPTION_APPLICATION_DEADLINE_getDate_def
        EXEMPTION_APPLICATION_DEADLINE_DATE_getDate_def)
  ultimately show ?thesis
    using grace anchors_order_aux [of year] by simp
qed

text \<open>The anchors of 2026, whose 1 February is a Sunday, as days since 1 January 1970.\<close>

theorem anchors_ordered_witness:
  "NEW_APPLICATION_PERIOD_BEGINS_getDate 2026 = 20454 * msPerDay \<and>
   ABATEMENT_APPLICATION_DEADLINE_getDate 2026 = 20486 * msPerDay \<and>
   ABATEMENT_GRACE_PERIOD_DEADLINE_getDate 2026 = 20514 * msPerDay \<and>
   EXEMPTIONS_IN_PROGRESS_getDate 2026 = 20513 * msPerDay \<and>
   EXEMPTION_APPLICATION_DEADLINE_getDate 2026 = 20544 * msPerDay \<and>
   NEW_FY_PRELIMINARY_TAX_PERIOD_BEGINS_getDate 2026 = 20635 * msPerDay \<and>
   NEW_APPLICATION_PERIOD_BEGINS_getDate 2026 < ABATEMENT_APPLICATION_DEADLINE_getDate 2026 \<and>
   ABATEMENT_APPLICATION_DEADLINE_getDate 2026 < EXEMPTIONS_IN_PROGRESS_getDate 2026"
proof -
  have "ABATEMENT_APPLICATION_DEADLINE_getDate 2026 = 20486 * msPerDay"
    by (simp add: anchor_defs getNextMonday_cases calendar_defs)
  moreover have "NEW_APPLICATION_PERIOD_BEGINS_getDate 2026 = 20454 * msPerDay"
    "EXEMPTIONS_IN_PROGRESS_getDate 2026 = 20513 * msPerDay"
    "EXEMPTION_APPLICATION_DEADLINE_getDate 2026 = 20544 * msPerDay"
    "NEW_FY_PRELIMINARY_TAX_PERIOD_BEGINS_getDate 2026 = 20635 * msPerDay"
    by (simp_all add: anchor_defs getNextMonday_cases calendar_defs)
  ultimately show ?thesis
    using anchors_ordered [of 2026] by (simp add: msPerDay_def)
qed


lemma year_window:
  "DayFromYear (getFullYear t) * msPerDay \<le> t"
  "t < DayFromYear (getFullYear t + 1) * msPerDay"
  using YearFromDay_bounds [of "Day t"]
  by (simp_all add: Day_le_iff Day_less_iff getFullYear_def YearFromTime_def)

lemma year_of_day_range:
  assumes "DayFromYear Y * msPerDay \<le> t" and "t < DayFromYear (Y + 1) * msPerDay"
  shows "getFullYear t = Y"
  using assms YearFromDay_unique [of Y "Day t"]
  by (simp add: Day_le_iff Day_less_iff getFullYear_def YearFromTime_def)

lemma first_half_of_year:
  assumes "MakeDate (MakeDay Y 0 1) 0 \<le> date" and "date < MakeDate (MakeDay Y 6 1) 0"
  shows "getFullYear date = Y \<and> getMonth date < 6"
proof -
  have lo: "DayFromYear Y \<le> Day date"
    using assms(1) by (simp add: MakeDate_def MakeDay_month monthStart_def Day_le_iff)
  have hi: "Day date < DayFromYear Y + 181 + InLeapYear_of Y"
    using assms(2) by (simp add: MakeDate_def MakeDay_month monthStart_def Day_less_iff)
  have "Day date < DayFromYear (Y + 1)"
    using hi by (simp add: DayFromYear_Suc DaysInYear_leap)
  then have y: "getFullYear date = Y"
    using lo YearFromDay_unique [of Y "Day date"] by (simp add: getFullYear_def YearFromTime_def)
  then have "DayWithinYear date < 181 + InLeapYear date"
    using hi by (simp add: DayWithinYear_def InLeapYear_def getFullYear_def)
  then have "\<not> 6 \<le> MonthFromTime date"
    by (simp add: MonthFromTime_ge_6)
  then show ?thesis using y by (simp add: getMonth_def)
qed

lemma second_half_of_year:
  assumes "MakeDate (MakeDay Y 6 1) 0 \<le> date" and "date < MakeDate (MakeDay (Y + 1) 0 1) 0"
  shows "getFullYear date = Y \<and> 6 \<le> getMonth date"
proof -
  have lo: "DayFromYear Y + 181 + InLeapYear_of Y \<le> Day date"
    using assms(1) by (simp add: MakeDate_def MakeDay_month monthStart_def Day_le_iff)
  have hi: "Day date < DayFromYear (Y + 1)"
    using assms(2) by (simp add: MakeDate_def MakeDay_month monthStart_def Day_less_iff)
  have "DayFromYear Y \<le> Day date"
    using lo InLeapYear_of_cases [of Y] by auto
  then have y: "getFullYear date = Y"
    using hi YearFromDay_unique [of Y "Day date"] by (simp add: getFullYear_def YearFromTime_def)
  then have "181 + InLeapYear date \<le> DayWithinYear date"
    using lo by (simp add: DayWithinYear_def InLeapYear_def getFullYear_def)
  then show ?thesis using y by (simp add: getMonth_def MonthFromTime_ge_6)
qed

text \<open>
  C3. For every date the fiscal year is the calendar year plus one when the month index
  is 6 (July) or more and the calendar year otherwise, and the quarter is "1" for July to
  December and "3" for January to June; the frontend's \<open>getFiscalYear\<close> and the
  backend's \<open>getFiscalYearAndQuarter\<close> agree. Equivalently, from 1 January of a year Y up
  to (not including) 1 July the fiscal year is Y and the quarter "3", and from 1 July up
  to (not including) 1 January of Y + 1 the fiscal year is Y + 1 and the quarter "1".
  Both are total functions.
\<close>

theorem fiscal_year_and_quarter:
  "getFiscalYear date =
     (if getMonth date \<ge> 6 then getFullYear date + 1 else getFullYear date) \<and>
   getFiscalYearAndQuarter date =
     \<lparr>fiscal_year = getFiscalYear date,
      fiscal_quarter = (if getMonth date \<ge> 6 then ''1'' else ''3'')\<rparr> \<and>
   (MakeDate (MakeDay Y 0 1) 0 \<le> date \<and> date < MakeDate (MakeDay Y 6 1) 0 \<longrightarrow>
      getFiscalYear date = Y \<and>
      getFiscalYearAndQuarter date = \<lparr>fiscal_year = Y, fiscal_quarter = ''3''\<rparr>) \<and>
   (MakeDate (MakeDay Y 6 1) 0 \<le> date \<and> date < MakeDate (MakeDay (Y + 1) 0 1) 0 \<longrightarrow>
      getFiscalYear date = Y + 1 \<and>
      getFiscalYearAndQuarter date = \<lparr>fiscal_year = Y + 1, fiscal_quarter = ''1''\<rparr>)"
  using first_half_of_year [of Y date] second_half_of_year [of Y date]
  by (auto simp add: getFiscalYear_def getFiscalYearAndQuarter_def Let_def)

text \<open>30 June 2026 at 23:59:59.999 is in fiscal year 2026; 1 July 2026 is in fiscal year 2027.\<close>

theorem fiscal_year_and_quarter_witness:
  "MakeDate (MakeDay 2026 0 1) 0 \<le> MakeDate (MakeDay 2026 5 30) 86399999 \<and>
   MakeDate (MakeDay 2026 5 30) 86399999 < MakeDate (MakeDay 2026 6 1) 0 \<and>
   getFiscalYear (MakeDate (MakeDay 2026 5 30) 86399999) = 2026 \<and>
   getFiscalYearAndQuarter (MakeDate (MakeDay 2026 5 30) 86399999) =
     \<lparr>fiscal_year = 2026, fiscal_quarter = ''3''\<rparr> \<and>
   MakeDate (MakeDay 2026 6 1) 0 < MakeDate (MakeDay 2027 0 1) 0 \<and>
   getFiscalYear (MakeDate (MakeDay 2026 6 1) 0) = 2027 \<and>
   getFiscalYearAndQuarter (MakeDate (MakeDay 2026 6 1) 0) =
     \<lparr>fiscal_year = 2027, fiscal_quarter = ''1''\<rparr>"
proof -
  have a: "MakeDate (MakeDay 2026 0 1) 0 \<le> MakeDate (MakeDay 2026 5 30) 86399999"
    "MakeDate (MakeDay 2026 5 30) 86399999 < MakeDate (MakeDay 2026 6 1) 0"
    "MakeDate (MakeDay 2026 6 1) 0 < MakeDate (MakeDay 2027 0 1) 0"
    by (simp_all add: calendar_defs)
  have b: "MakeDate (MakeDay 2026 6 1) 0 < MakeDate (MakeDay (2026 + 1) 0 1) 0"
    using a(3) by simp
  have c: "MakeDate (MakeDay 2026 6 1) 0 \<le> MakeDate (MakeDay 2026 6 1) 0"
    by simp
  have first: "getFiscalYear (MakeDate (MakeDay 2026 5 30) 86399999) = 2026 \<and>
      getFiscalYearAndQuarter (MakeDate (MakeDay 2026 5 30) 86399999) =
        \<lparr>fiscal_year = 2026, fiscal_quarter = ''3''\<rparr>"
    using a(1,2) fiscal_year_and_quarter [of "MakeDate (MakeDay 2026 5 30) 86399999" 2026]
    by blast
  have second: "getFiscalYear (MakeDate (MakeDay 2026 6 1) 0) = 2026 + 1 \<and>
      getFiscalYearAndQuarter (MakeDate (MakeDay 2026 6 1) 0) =
        \<lparr>fiscal_year = 2026 + 1, fiscal_quarter = ''1''\<rparr>"
    using b c fiscal_year_and_quarter [of "MakeDate (MakeDay 2026 6 1) 0" 2026]
    by blast
  show ?thesis
    using a first second by simp
qed


text \<open>
  C1. For every year and every exemption type, \<open>getExemptionPhase\<close> at exactly the
  exemption deadline of the year returns the phase \<open>open\<close> (the branch for \<open>open\<close> is
  tested before the one for \<open>after_deadline\<close>, and both include the deadline), and at
  every instant strictly after the deadline and strictly before the start of the fiscal
  year (1 July) it returns \<open>after_deadline\<close>.
\<close>

theorem getExemptionPhase_deadline_boundary:
  "phase (getExemptionPhase (EXEMPTION_APPLICATION_DEADLINE_DATE_getDate year) year opts)
     = ''open'' \<and>
   (\<forall>date. EXEMPTION_APPLICATION_DEADLINE_DATE_getDate year < date \<and>
           date < NEW_FY_PRELIMINARY_TAX_PERIOD_BEGINS_getDate year \<longrightarrow>
      phase (getExemptionPhase date year opts) = ''after_deadline'')"
proof (intro conjI allI impI)
  show "phase (getExemptionPhase (EXEMPTION_APPLICATION_DEADLINE_DATE_getDate year) year opts)
      = ''open''"
    using anchors_order_aux(4) [of year] by (simp add: getExemptionPhase_phase Let_def)
next
  fix date
  assume "EXEMPTION_APPLICATION_DEADLINE_DATE_getDate year < date \<and>
    date < NEW_FY_PRELIMINARY_TAX_PERIOD_BEGINS_getDate year"
  then show "phase (getExemptionPhase date year opts) = ''after_deadline''"
    using anchors_order_aux(4) [of year] by (simp add: getExemptionPhase_phase Let_def)
qed

text \<open>
  The exemption deadline of 2026 is 1 April 2026 (a Wednesday). At that instant the phase
  of a residential exemption is \<open>open\<close>; one millisecond later it is \<open>after_deadline\<close>.
\<close>

theorem getExemptionPhase_deadline_boundary_witness:
  "EXEMPTION_APPLICATION_DEADLINE_DATE_getDate 2026 = newDate 2026 3 1 \<and>
   phase (getExemptionPhase (EXEMPTION_APPLICATION_DEADLINE_DATE_getDate 2026) 2026
     \<lparr>grantedCount = 0, exemption_type = Residential\<rparr>) = ''open'' \<and>
   EXEMPTION_APPLICATION_DEADLINE_DATE_getDate 2026
     < EXEMPTION_APPLICATION_DEADLINE_DATE_getDate 2026 + 1 \<and>
   EXEMPTION_APPLICATION_DEADLINE_DATE_getDate 2026 + 1
     < NEW_FY_PRELIMINARY_TAX_PERIOD_BEGINS_getDate 2026 \<and>
   phase (getExemptionPhase (EXEMPTION_APPLICATION_DEADLINE_DATE_getDate 2026 + 1) 2026
     \<lparr>grantedCount = 0, exemption_type = Residential\<rparr>) = ''after_deadline''"
proof -
  have d: "EXEMPTION_APPLICATION_DEADLINE_DATE_getDate 2026 = newDate 2026 3 1"
    by (simp add: anchor_defs getNextMonday_cases calendar_defs)
  have lt: "EXEMPTION_APPLICATION_DEADLINE_DATE_getDate 2026
      < EXEMPTION_APPLICATION_DEADLINE_DATE_getDate 2026 + 1"
    by simp
  have lt2: "EXEMPTION_APPLICATION_DEADLINE_DATE_getDate 2026 + 1
      < NEW_FY_PRELIMINARY_TAX_PERIOD_BEGINS_getDate 2026"
    unfolding d by (simp add: anchor_defs calendar_defs)
  show ?thesis
    using d lt lt2
      getExemptionPhase_deadline_boundary
        [of 2026 "\<lparr>grantedCount = 0, exemption_type = Residential\<rparr>"]
    by blast
qed


text \<open>
  C2. For every date and any two reference years (and parcel ids), \<open>getAbatementPhase\<close>
  returns the same phase and the same deadline: the branch is chosen from the date alone,
  and the year argument reaches only the message, so the two results are equal once
  their messages are set to the same value.
\<close>

theorem getAbatementPhase_year_independent:
  "phase (getAbatementPhase now y1 p1) = phase (getAbatementPhase now y2 p2) \<and>
   deadline (getAbatementPhase now y1 p1) = deadline (getAbatementPhase now y2 p2) \<and>
   (getAbatementPhase now y1 p1)\<lparr>message := m\<rparr> = (getAbatementPhase now y2 p2)\<lparr>message := m\<rparr>"
proof -
  have p: "phase (getAbatementPhase now y1 p1) = phase (getAbatementPhase now y2 p2)"
    by (simp add: getAbatementPhase_phase)
  have d: "deadline (getAbatementPhase now y1 p1) = deadline (getAbatementPhase now y2 p2)"
    by (simp add: getAbatementPhase_deadline)
  show ?thesis
    using p d PhaseResult_eq_upto_message [OF p d] by simp
qed

text \<open>On 15 January 2026 the phase is \<open>open\<close> for the reference year 2026 and for 1999.\<close>

theorem getAbatementPhase_year_independent_witness:
  "phase (getAbatementPhase (newDate 2026 0 15) 2026 None) = ''open'' \<and>
   phase (getAbatementPhase (newDate 2026 0 15) 1999 (Some ''0504203000'')) = ''open'' \<and>
   deadline (getAbatementPhase (newDate 2026 0 15) 1999 (Some ''0504203000''))
     = Some (newDate 2026 1 2)"
proof -
  have y: "getFullYear (newDate 2026 0 15) = 2026"
    by (simp add: calendar_defs year_defs)
  have a: "ABATEMENT_APPLICATION_DEADLINE_getDate 2026 = newDate 2026 1 2"
    by (simp add: anchor_defs getNextMonday_cases calendar_defs)
  have b: "NEW_APPLICATION_PERIOD_BEGINS_getDate 2026 \<le> newDate 2026 0 15"
    "newDate 2026 0 15 \<le> newDate 2026 1 2"
    by (simp_all add: anchor_defs calendar_defs)
  have "phase (getAbatementPhase (newDate 2026 0 15) 2026 None) = ''open'' \<and>
    deadline (getAbatementPhase (newDate 2026 0 15) 2026 None) = Some (newDate 2026 1 2)"
    using b by (simp add: getAbatementPhase_phase getAbatementPhase_deadline Let_def y a)
  then show ?thesis
    using getAbatementPhase_year_independent
      [of "newDate 2026 0 15" 2026 None 1999 "Some ''0504203000''"]
    by simp
qed


text \<open>
  A date of a year from 0 to 99 is before every anchor that the code builds from its
  \<open>getFullYear()\<close>, since \<open>new Date(year, 0, 1)\<close> reads such a year as 1900 + year;
  no dated branch of \<open>getAbatementPhase\<close> applies to it and the final branch returns.
\<close>

lemma getAbatementPhase_two_digit_year:
  assumes "0 \<le> getFullYear now" and "getFullYear now \<le> 99"
  shows "now < NEW_APPLICATION_PERIOD_BEGINS_getDate (getFullYear now) \<and>
    getAbatementPhase now year parcelId =
      \<lparr>phase = ''preliminary'',
       message = getAbatementPhaseMessage ''preliminary'' Map.empty None,
       deadline = None\<rparr>"
proof -
  have "DayFromYear (getFullYear now + 1) \<le> DayFromYear (1900 + getFullYear now)"
    using assms(1) by (intro DayFromYear_mono) simp
  then have "DayFromYear (getFullYear now + 1) * msPerDay
      \<le> DayFromYear (1900 + getFullYear now) * msPerDay"
    by (simp add: msPerDay_def)
  moreover have "NEW_APPLICATION_PERIOD_BEGINS_getDate (getFullYear now)
      = DayFromYear (1900 + getFullYear now) * msPerDay"
    using assms by (simp add: anchors_days(1))
  ultimately have j: "now < NEW_APPLICATION_PERIOD_BEGINS_getDate (getFullYear now)"
    using year_window(2) [of now] by linarith
  have d: "now < ABATEMENT_APPLICATION_DEADLINE_getDate (getFullYear now)"
    using j anchors_order_aux(1) [of "getFullYear now"] by linarith
  have f: "now < NEW_FY_PRELIMINARY_TAX_PERIOD_BEGINS_getDate (getFullYear now)"
    using d anchors_order_aux(3) [of "getFullYear now"] by linarith
  have "getAbatementPhase now year parcelId =
      \<lparr>phase = ''preliminary'',
       message = getAbatementPhaseMessage ''preliminary'' Map.empty None,
       deadline = None\<rparr>"
    unfolding getAbatementPhase_def Let_def
    using j d f by simp
  then show ?thesis using j by simp
qed

text \<open>
  C10. The specification has every valid date in one of the three dated branches of
  \<open>getAbatementPhase\<close>, its date being on or after 1 January of its year, and the final
  catch-all branch dead. The code does not achieve this. On 1 March of the year 50
  (the time value -60584198400000) \<open>getFullYear\<close> is 50, 1 January as the code builds it
  from that year is 1 January 1950, the date is before it, and the result is that of the
  final branch: the phase \<open>preliminary\<close>, the message for no variables, no deadline.
\<close>

theorem getAbatementPhase_fallback_reached:
  "MakeDate (MakeDay 50 2 1) 0 = - 60584198400000 \<and>
   getFullYear (MakeDate (MakeDay 50 2 1) 0) = 50 \<and>
   NEW_APPLICATION_PERIOD_BEGINS_getDate 50 = MakeDate (MakeDay 1950 0 1) 0 \<and>
   MakeDate (MakeDay 50 2 1) 0 < NEW_APPLICATION_PERIOD_BEGINS_getDate 50 \<and>
   getAbatementPhase (MakeDate (MakeDay 50 2 1) 0) 2026 None =
     \<lparr>phase = ''preliminary'',
      message = LanguageString ''periods.abatement_phases.preliminary'' Map.empty,
      deadline = None\<rparr>"
proof -
  have y: "getFullYear (MakeDate (MakeDay 50 2 1) 0) = 50"
    by (simp add: calendar_defs year_defs)
  have j: "NEW_APPLICATION_PERIOD_BEGINS_getDate 50 = MakeDate (MakeDay 1950 0 1) 0"
    by (simp add: anchor_defs newDate_def)
  have a: "MakeDate (MakeDay 50 2 1) 0 < NEW_APPLICATION_PERIOD_BEGINS_getDate 50"
    "MakeDate (MakeDay 50 2 1) 0 < NEW_FY_PRELIMINARY_TAX_PERIOD_BEGINS_getDate 50"
    by (simp_all add: anchor_defs calendar_defs)
  have b: "MakeDate (MakeDay 50 2 1) 0 < ABATEMENT_APPLICATION_DEADLINE_getDate 50"
    using a(1) anchors_order_aux(1) [of 50] by linarith
  have "getAbatementPhase (MakeDate (MakeDay 50 2 1) 0) 2026 None =
     \<lparr>phase = ''preliminary'',
      message = LanguageString ''periods.abatement_phases.preliminary'' Map.empty,
      deadline = None\<rparr>"
    unfolding getAbatementPhase_def Let_def y
    using a b by (simp add: getAbatementPhaseMessage_def)
  moreover have "MakeDate (MakeDay 50 2 1) 0 = - 60584198400000"
    by (simp add: calendar_defs)
  ultimately show ?thesis
    using y j a(1) by simp
qed


section \<open>Properties of the paginated queries\<close>

lemma push_batches_eq: "push_batches fs i acc = acc @ drop i fs"
proof (induction fs i acc rule: push_batches.induct)
  case (1 fs i allFeatures)
  show ?case
  proof (cases "i < length fs")
    case True
    have "take 100 (drop i fs) @ drop (i + 100) fs = drop i fs"
      by (metis append_take_drop_id drop_drop add.commute)
    then show ?thesis
      using True "1.IH" [OF True] by (subst push_batches.simps) simp
  next
    case False
    then show ?thesis by (subst push_batches.simps) simp
  qed
qed

lemma retry_request_first_ok:
  "fetch calls offset = OkJson (Some d) \<Longrightarrow>
     retry_request fetch offset calls 0 = (Inr d, Suc calls)"
  by (subst retry_request.simps) (simp add: maxRetries_def)

lemma loop_last_page:
  assumes "fetch (fetchCalls s) (resultOffset s) = OkJson (Some p)"
    and "page_features p \<noteq> []" and "exceededTransferLimit p \<noteq> Some True"
  shows "fetchEGISData_loop fetch s =
    Some (Inr (s\<lparr>allFeatures := allFeatures s @ page_features p,
                  requestCount := Suc (requestCount s),
                  fetchCalls := Suc (fetchCalls s),
                  requestedOffsets := requestedOffsets s @ [resultOffset s]\<rparr>))"
  using assms
  by (cases s, subst fetchEGISData_loop.simps)
     (simp add: Let_def retry_request_first_ok push_batches_eq)

lemma loop_next_page:
  assumes "fetch (fetchCalls s) (resultOffset s) = OkJson (Some p)"
    and "page_features p \<noteq> []" and "exceededTransferLimit p = Some True"
  shows "fetchEGISData_loop fetch s =
    fetchEGISData_loop fetch
      (s\<lparr>allFeatures := allFeatures s @ page_features p,
         resultOffset := resultOffset s + length (page_features p),
         requestCount := Suc (requestCount s),
         fetchCalls := Suc (fetchCalls s),
         requestedOffsets := requestedOffsets s @ [resultOffset s]\<rparr>)"
  using assms
  by (cases s, subst fetchEGISData_loop.simps)
     (simp add: Let_def retry_request_first_ok push_batches_eq)

lemma loop_serves:
  assumes "list_all (\<lambda>p. exceededTransferLimit p = Some True) pre"
    and "exceededTransferLimit final \<noteq> Some True"
    and "list_all (\<lambda>p. page_features p \<noteq> []) (pre @ [final])"
    and "serves fetch (fetchCalls s) (resultOffset s) (pre @ [final])"
  shows "fetchEGISData_loop fetch s =
    Some (Inr (s\<lparr>allFeatures := allFeatures s @ concat (map page_features (pre @ [final])),
                  resultOffset := resultOffset s + length (concat (map page_features pre)),
                  requestCount := requestCount s + length pre + 1,
                  fetchCalls := fetchCalls s + length pre + 1,
                  requestedOffsets :=
                    requestedOffsets s @ page_offsets (resultOffset s) (pre @ [final])\<rparr>))"
  using assms
proof (induction pre arbitrary: s)
  case Nil
  then show ?case
    using loop_last_page [of fetch s final] by simp
next
  case (Cons p pre)
  let ?s = "s\<lparr>allFeatures := allFeatures s @ page_features p,
         resultOffset := resultOffset s + length (page_features p),
         requestCount := Suc (requestCount s),
         fetchCalls := Suc (fetchCalls s),
         requestedOffsets := requestedOffsets s @ [resultOffset s]\<rparr>"
  have step: "fetchEGISData_loop fetch s = fetchEGISData_loop fetch ?s"
    using Cons.prems by (intro loop_next_page) simp_all
  have "serves fetch (fetchCalls ?s) (resultOffset ?s) (pre @ [final])"
    using Cons.prems(4) by simp
  then have "fetchEGISData_loop fetch ?s =
    Some (Inr (?s\<lparr>allFeatures := allFeatures ?s @ concat (map page_features (pre @ [final])),
                  resultOffset := resultOffset ?s + length (concat (map page_features pre)),
                  requestCount := requestCount ?s + length pre + 1,
                  fetchCalls := fetchCalls ?s + length pre + 1,
                  requestedOffsets :=
                    requestedOffsets ?s @ page_offsets (resultOffset ?s) (pre @ [final])\<rparr>))"
    using Cons.prems by (intro Cons.IH) simp_all
  then show ?case
    using step by simp
qed

lemma page_offsets_increasing:
  "list_all (\<lambda>p. page_features p \<noteq> []) ps \<Longrightarrow>
     sorted_wrt (<) (page_offsets off ps) \<and> (\<forall>x \<in> set (page_offsets off ps). off \<le> x)"
proof (induction ps arbitrary: off)
  case Nil
  show ?case by simp
next
  case (Cons p ps)
  then have ih: "sorted_wrt (<) (page_offsets (off + length (page_features p)) ps)"
    "\<forall>x \<in> set (page_offsets (off + length (page_features p)) ps).
       off + length (page_features p) \<le> x"
    by simp_all
  have pos: "0 < length (page_features p)" using Cons.prems by simp
  have "\<forall>x \<in> set (page_offsets (off + length (page_features p)) ps). off < x"
  proof
    fix x
    assume "x \<in> set (page_offsets (off + length (page_features p)) ps)"
    then have "off + length (page_features p) \<le> x" using ih(2) by blast
    then show "off < x" using pos by linarith
  qed
  then show ?case using ih(1) by auto
qed

lemma length_page_offsets: "length (page_offsets off ps) = length ps"
  by (induction ps arbitrary: off) simp_all

text \<open>
  C9. When the network serves a sequence of pages in which every page has features, the
  first k pages have \<open>exceededTransferLimit\<close> true and page k + 1 has it false or absent,
  \<open>fetchEGISData\<close> returns the features of all the pages, in order. It issues exactly
  k + 1 page requests with k + 1 calls of \<open>fetch\<close>, at strictly increasing offsets that
  start at 0 and grow by the number of features of the page before, and stops after the
  first page whose flag is false or absent.
\<close>

theorem fetchEGISData_pagination:
  assumes "list_all (\<lambda>p. exceededTransferLimit p = Some True) pre"
    and "exceededTransferLimit final \<noteq> Some True"
    and "list_all (\<lambda>p. page_features p \<noteq> []) (pre @ [final])"
    and "serves fetch 0 0 (pre @ [final])"
  shows "fetchEGISData fetch = Some (Inr (concat (map page_features (pre @ [final])))) \<and>
    (\<exists>s. fetchEGISData_loop fetch initial_state = Some (Inr s) \<and>
         allFeatures s = concat (map page_features (pre @ [final])) \<and>
         requestCount s = length pre + 1 \<and>
         fetchCalls s = length pre + 1 \<and>
         requestedOffsets s = page_offsets 0 (pre @ [final]) \<and>
         length (requestedOffsets s) = length pre + 1 \<and>
         sorted_wrt (<) (requestedOffsets s))"
proof -
  have "serves fetch (fetchCalls (initial_state :: 'a fetch_state))
      (resultOffset (initial_state :: 'a fetch_state)) (pre @ [final])"
    using assms(4) by (simp add: initial_state_def)
  note run = loop_serves [OF assms(1) assms(2) assms(3) this]
  have inc: "sorted_wrt (<) (page_offsets 0 (pre @ [final]))"
    using page_offsets_increasing [OF assms(3), of 0] by simp
  show ?thesis
    using inc run by (simp add: fetchEGISData_def initial_state_def length_page_offsets)
qed

text \<open>
  Three pages with the flags true, true, false are fetched with exactly three calls, at
  the offsets 0, 2 and 3, and their features are returned in order. The network of the
  example answers by the number of the call, whatever the offset.
\<close>

theorem fetchEGISData_pagination_witness:
  "fetchEGISData example_fetch = Some (Inr [''a'', ''b'', ''c'', ''d'', ''e'']) \<and>
   (\<exists>s. fetchEGISData_loop example_fetch initial_state = Some (Inr s) \<and>
        requestCount s = 3 \<and> fetchCalls s = 3 \<and> requestedOffsets s = [0, 2, 3])"
proof -
  let ?pre = "[\<lparr>features = Some [''a'', ''b''], exceededTransferLimit = Some True\<rparr>,
               \<lparr>features = Some [''c''], exceededTransferLimit = Some True\<rparr>]"
  let ?final = "\<lparr>features = Some [''d'', ''e''], exceededTransferLimit = Some False\<rparr>"
  have h1: "list_all (\<lambda>p. exceededTransferLimit p = Some True) ?pre"
    by simp
  have h2: "exceededTransferLimit ?final \<noteq> Some True"
    by simp
  have h3: "list_all (\<lambda>p. page_features p \<noteq> []) (?pre @ [?final])"
    by (simp add: page_features_def)
  have h4: "serves example_fetch 0 0 (?pre @ [?final])"
    by (simp add: example_fetch_def example_pages_def page_features_def)
  from fetchEGISData_pagination [OF h1 h2 h3 h4]
  obtain s where r: "fetchEGISData example_fetch =
        Some (Inr (concat (map page_features (?pre @ [?final]))))"
      "fetchEGISData_loop example_fetch initial_state = Some (Inr s)"
      "requestCount s = length ?pre + 1" "fetchCalls s = length ?pre + 1"
      "requestedOffsets s = page_offsets 0 (?pre @ [?final])"
    by blast
  have "fetchEGISData example_fetch = Some (Inr [''a'', ''b'', ''c'', ''d'', ''e''])"
    using r(1) by (simp add: page_features_def)
  moreover have "requestCount s = 3" "fetchCalls s = 3" "requestedOffsets s = [0, 2, 3]"
    using r(3,4,5) by (simp_all add: page_features_def)
  ultimately show ?thesis
    using r(2) by blast
qed


section \<open>Properties of the configuration and of the merge\<close>

lemmas text_defs =
  parseAfterDash_def toProperCase_def indexOf_def slice_def trim_def isWhiteSpace_def
  test_abbreviation_def isAbbreviationChar_def Let_def toLowerCase_def toLowerCase_char_def
  toUpperCase_char_def isWordChar_def


lemma Math_max_eq: "Math_max xs = (if xs = [] then None else Some (Max (set xs)))"
proof (induction xs)
  case Nil
  show ?case by simp
next
  case (Cons x xs)
  show ?case
  proof (cases "xs = []")
    case True
    then show ?thesis by simp
  next
    case False
    then have "Max (set (x # xs)) = max x (Max (set xs))"
      by simp
    then show ?thesis using Cons False by simp
  qed
qed

lemma getLatestFiscalYear_eq:
  "getLatestFiscalYear config =
     (if fiscalYears config = [] then None
      else Some (Max (fst ` set (fiscalYears config))))"
  by (simp add: getLatestFiscalYear_def Math_max_eq)

lemma latest_is_configured:
  assumes "tbl \<noteq> []"
  shows "\<exists>d. map_of tbl (Max (fst ` set tbl)) = Some d"
proof -
  have "Max (fst ` set tbl) \<in> fst ` set tbl"
    using assms by (intro Max_in) simp_all
  then have "map_of tbl (Max (fst ` set tbl)) \<noteq> None"
    by (simp add: map_of_eq_None_iff)
  then show ?thesis by blast
qed

text \<open>
  C4. For every fiscal year: when the table has an entry for the year, \<open>getTaxRates\<close>
  returns the rates of that entry; otherwise, when the year is strictly greater than the
  greatest configured year, it returns the rates of that greatest year; otherwise (a gap,
  a year before the earliest configured one, or an empty table) it returns the default
  rates. With the fiscal year 2026 alone configured, the rates of 2030 are those of 2026
  and the rates of 2015 are the defaults.
\<close>

theorem getTaxRates_fallback:
  "(\<forall>yearData. map_of (fiscalYears config) fiscalYear = Some yearData \<longrightarrow>
      getTaxRates config fiscalYear = taxRates yearData) \<and>
   (map_of (fiscalYears config) fiscalYear = None \<and> fiscalYears config \<noteq> [] \<and>
    fiscalYear > Max (fst ` set (fiscalYears config)) \<longrightarrow>
      (\<exists>latestYearData.
         map_of (fiscalYears config) (Max (fst ` set (fiscalYears config)))
           = Some latestYearData \<and>
         getTaxRates config fiscalYear = taxRates latestYearData)) \<and>
   (map_of (fiscalYears config) fiscalYear = None \<and>
    (fiscalYears config = [] \<or> fiscalYear \<le> Max (fst ` set (fiscalYears config))) \<longrightarrow>
      getTaxRates config fiscalYear = default_taxRates (defaults config)) \<and>
   getTaxRates \<lparr>fiscalYears = [(2026, data2026)], defaults = dflt\<rparr> 2030
     = taxRates data2026 \<and>
   getTaxRates \<lparr>fiscalYears = [(2026, data2026)], defaults = dflt\<rparr> 2015
     = default_taxRates dflt"
proof (intro conjI allI impI)
  fix yearData
  assume "map_of (fiscalYears config) fiscalYear = Some yearData"
  then show "getTaxRates config fiscalYear = taxRates yearData"
    by (simp add: getTaxRates_def)
next
  assume a: "map_of (fiscalYears config) fiscalYear = None \<and> fiscalYears config \<noteq> [] \<and>
    fiscalYear > Max (fst ` set (fiscalYears config))"
  then obtain d where d: "map_of (fiscalYears config) (Max (fst ` set (fiscalYears config))) = Some d"
    using latest_is_configured [of "fiscalYears config"] by blast
  then have "getTaxRates config fiscalYear = taxRates d"
    using a by (simp add: getTaxRates_def getLatestFiscalYear_eq)
  then show "\<exists>latestYearData.
      map_of (fiscalYears config) (Max (fst ` set (fiscalYears config))) = Some latestYearData \<and>
      getTaxRates config fiscalYear = taxRates latestYearData"
    using d by blast
next
  assume a: "map_of (fiscalYears config) fiscalYear = None \<and>
    (fiscalYears config = [] \<or> fiscalYear \<le> Max (fst ` set (fiscalYears config)))"
  show "getTaxRates config fiscalYear = default_taxRates (defaults config)"
  proof (cases "fiscalYears config = []")
    case True
    then show ?thesis
      using a by (simp add: getTaxRates_def getLatestFiscalYear_eq)
  next
    case False
    then have "\<not> Max (fst ` set (fiscalYears config)) < fiscalYear"
      using a by linarith
    then show ?thesis
      using a False by (simp add: getTaxRates_def getLatestFiscalYear_eq del: Max_less_iff)
  qed
next
  show "getTaxRates \<lparr>fiscalYears = [(2026, data2026)], defaults = dflt\<rparr> 2030 = taxRates data2026"
    by (simp add: getTaxRates_def getLatestFiscalYear_def)
next
  show "getTaxRates \<lparr>fiscalYears = [(2026, data2026)], defaults = dflt\<rparr> 2015
      = default_taxRates dflt"
    by (simp add: getTaxRates_def getLatestFiscalYear_def)
qed

text \<open>
  With the example configuration (only 2026, at 12.40 and 26.96; defaults 11.58 and
  25.96): 2026 is configured, 2030 is after the greatest configured year, 2015 is before.
\<close>

theorem getTaxRates_fallback_witness:
  "getTaxRates example_config 2026 = \<lparr>residential = 12.40, commercial = 26.96\<rparr> \<and>
   getTaxRates example_config 2030 = \<lparr>residential = 12.40, commercial = 26.96\<rparr> \<and>
   getTaxRates example_config 2015 = \<lparr>residential = 11.58, commercial = 25.96\<rparr>"
proof -
  have a: "getTaxRates example_config 2026 = \<lparr>residential = 12.40, commercial = 26.96\<rparr>"
    using getTaxRates_fallback [of example_config 2026]
    by (simp add: example_config_def)
  have b: "getTaxRates example_config 2030 = \<lparr>residential = 12.40, commercial = 26.96\<rparr>"
    using getTaxRates_fallback [of example_config 2030]
    by (simp add: example_config_def)
  have c: "getTaxRates example_config 2015 = \<lparr>residential = 11.58, commercial = 25.96\<rparr>"
    using getTaxRates_fallback [of example_config 2015]
    by (simp add: example_config_def)
  show ?thesis using a b c by simp
qed

text \<open>
  C7. \<open>prioritizeValue\<close> returns the residential value when it is present, otherwise the
  condo value when that is present, otherwise \<open>undefined\<close>; a value is present when it is
  not \<open>null\<close>, not \<open>undefined\<close> and not the empty string, so the number 0 is present.
  With the residential foundation "" and the condo foundation "Brick" the foundation of
  the merged record is "Brick"; with the residential foundation "Concrete" it is
  "Concrete" whatever the condo value.
\<close>

theorem prioritizeValue_priority:
  "isValid v = (v \<noteq> JNull \<and> v \<noteq> JUndefined \<and> v \<noteq> JString '''') \<and>
   isValid (JNumber 0) \<and>
   (isValid residentialValue \<longrightarrow>
      prioritizeValue residentialValue condoValue = residentialValue) \<and>
   (\<not> isValid residentialValue \<and> isValid condoValue \<longrightarrow>
      prioritizeValue residentialValue condoValue = condoValue) \<and>
   (\<not> isValid residentialValue \<and> \<not> isValid condoValue \<longrightarrow>
      prioritizeValue residentialValue condoValue = JUndefined) \<and>
   merged_foundation (JString '''') (JString ''Brick'') = JString ''Brick'' \<and>
   merged_foundation (JString ''Concrete'') condo_foundation = JString ''Concrete''"
proof -
  have v: "isValid v = (v \<noteq> JNull \<and> v \<noteq> JUndefined \<and> v \<noteq> JString '''')"
    by (cases v) (simp_all add: isValid_def)
  have c: "toProperCase (JString (parseAfterDash (JString ''Concrete''))) = ''Concrete''"
    by (simp add: text_defs)
  have b: "toProperCase (JString (parseAfterDash (JString ''Brick''))) = ''Brick''"
    by (simp add: text_defs)
  have e: "toProperCase (JString (parseAfterDash (JString ''''))) = ''''"
    by (simp add: text_defs)
  have "merged_foundation (JString '''') (JString ''Brick'') = JString ''Brick''"
    by (simp add: merged_foundation_def b e prioritizeValue_def isValid_def js_or_def truthy_def)
  moreover have "merged_foundation (JString ''Concrete'') condo_foundation = JString ''Concrete''"
    by (simp add: merged_foundation_def c prioritizeValue_def isValid_def js_or_def truthy_def)
  ultimately show ?thesis
    using v by (simp add: prioritizeValue_def isValid_def)
qed

text \<open>
  Zero bedrooms in the residential row win over three in the condo row; an empty
  residential string yields the condo value; \<open>null\<close> and \<open>undefined\<close> yield \<open>undefined\<close>.
\<close>

theorem prioritizeValue_priority_witness:
  "isValid (JNumber 0) \<and>
   prioritizeValue (JNumber 0) (JNumber 3) = JNumber 0 \<and>
   \<not> isValid (JString '''') \<and> isValid (JString ''Brick'') \<and>
   prioritizeValue (JString '''') (JString ''Brick'') = JString ''Brick'' \<and>
   \<not> isValid JNull \<and> \<not> isValid JUndefined \<and>
   prioritizeValue JNull JUndefined = JUndefined"
proof -
  have a: "isValid (JNumber 0)" "\<not> isValid (JString '''')" "isValid (JString ''Brick'')"
    "\<not> isValid JNull" "\<not> isValid JUndefined"
    using prioritizeValue_priority [of "JNumber 0"] prioritizeValue_priority [of "JString ''''"]
      prioritizeValue_priority [of "JString ''Brick''"] prioritizeValue_priority [of JNull]
      prioritizeValue_priority [of JUndefined]
    by simp_all
  have b: "prioritizeValue (JNumber 0) (JNumber 3) = JNumber 0"
    using a(1) prioritizeValue_priority [of _ "JNumber 0" "JNumber 3"] by blast
  have c: "prioritizeValue (JString '''') (JString ''Brick'') = JString ''Brick''"
    using a(2,3) prioritizeValue_priority [of _ "JString ''''" "JString ''Brick''"] by blast
  have d: "prioritizeValue JNull JUndefined = JUndefined"
    using a(4,5) prioritizeValue_priority [of _ JNull JUndefined] by blast
  show ?thesis using a b c d by blast
qed

text \<open>
  C8, at the input "A - B - C". The specification and the comment of the function have
  the text after the last separator, "C"; \<open>parseAfterDash\<close> cuts at the first separator
  (\<open>indexOf\<close>) and returns "B - C". With one separator, with none, and on \<open>null\<close>,
  \<open>undefined\<close> and the empty string it returns what the specification says.
\<close>

theorem parseAfterDash_first_separator:
  "indexOf ''A - B - C'' '' - '' = 1 \<and>
   parseAfterDash (JString ''A - B - C'') = ''B - C'' \<and>
   toProperCase (JString (trim ''C'')) = ''C'' \<and>
   parseAfterDash (JString ''R1 - one family'') = ''One Family'' \<and>
   parseAfterDash (JString '' brick '') = ''Brick'' \<and>
   parseAfterDash JNull = '''' \<and> parseAfterDash JUndefined = '''' \<and>
   parseAfterDash (JString '''') = ''''"
  by (simp add: text_defs)


end
